theory Spec2Isabelle
  imports Main "HOL-Library.AList"
begin

section \<open>Python values and exceptions\<close>

text \<open>
  The engine of \<^verbatim>\<open>main.py\<close> works on whatever \<^verbatim>\<open>json.load\<close> returns, so the model keeps
  the dynamic typing: a value is one of the JSON shapes, and every operator the source
  applies to such a value (\<^verbatim>\<open>in\<close>, subscription, \<^verbatim>\<open>len\<close>, iteration, truth value,
  \<^verbatim>\<open>!=\<close>) is a function that returns the value or the exception Python raises.
  JSON numbers with a fraction are not represented. A \<^typ>\<open>char\<close> stands for one
  character of a Python \<^verbatim>\<open>str\<close>.
\<close>

datatype exn =
    TypeError | KeyError | AttributeError | JSONDecodeError | UnicodeDecodeError | OSError | SystemExit

datatype 'a result = Return 'a | Raise exn

datatype json =
    JNull
  | JBool bool
  | JInt int
  | JStr string
  | JArr "json list"
  | JObj "(string \<times> json) list"

text \<open>Truth value of a value, as \<^verbatim>\<open>if x:\<close> takes it.\<close>

fun truthy :: "json \<Rightarrow> bool" where
  "truthy JNull = False"
| "truthy (JBool b) = b"
| "truthy (JInt n) = (n \<noteq> 0)"
| "truthy (JStr s) = (s \<noteq> [])"
| "truthy (JArr xs) = (xs \<noteq> [])"
| "truthy (JObj kvs) = (kvs \<noteq> [])"

fun starts_with :: "string \<Rightarrow> string \<Rightarrow> bool" where
  "starts_with [] s = True"
| "starts_with (c # p) [] = False"
| "starts_with (c # p) (d # s) = (c = d \<and> starts_with p s)"

fun substring :: "string \<Rightarrow> string \<Rightarrow> bool" where
  "substring p [] = (p = [])"
| "substring p (c # s) = (starts_with p (c # s) \<or> substring p s)"

text \<open>
  \<^verbatim>\<open>key in x\<close> for a string key: key membership in a dict, element membership in a
  list, substring test on a string, \<^verbatim>\<open>TypeError\<close> on None, bool and int.
\<close>

fun py_in :: "string \<Rightarrow> json \<Rightarrow> bool result" where
  "py_in k (JObj kvs) = Return (map_of kvs k \<noteq> None)"
| "py_in k (JArr xs) = Return (JStr k \<in> set xs)"
| "py_in k (JStr s) = Return (substring k s)"
| "py_in k JNull = Raise TypeError"
| "py_in k (JBool b) = Raise TypeError"
| "py_in k (JInt n) = Raise TypeError"

text \<open>
  \<^verbatim>\<open>x[key]\<close> for a string key: the value in a dict (\<^verbatim>\<open>KeyError\<close> when missing),
  \<^verbatim>\<open>TypeError\<close> on every other shape.
\<close>

fun py_getitem :: "json \<Rightarrow> string \<Rightarrow> json result" where
  "py_getitem (JObj kvs) k = (case map_of kvs k of None \<Rightarrow> Raise KeyError | Some v \<Rightarrow> Return v)"
| "py_getitem JNull k = Raise TypeError"
| "py_getitem (JBool b) k = Raise TypeError"
| "py_getitem (JInt n) k = Raise TypeError"
| "py_getitem (JStr s) k = Raise TypeError"
| "py_getitem (JArr xs) k = Raise TypeError"

fun py_len :: "json \<Rightarrow> nat result" where
  "py_len (JObj kvs) = Return (length kvs)"
| "py_len (JArr xs) = Return (length xs)"
| "py_len (JStr s) = Return (length s)"
| "py_len JNull = Raise TypeError"
| "py_len (JBool b) = Raise TypeError"
| "py_len (JInt n) = Raise TypeError"

text \<open>
  The items a \<^verbatim>\<open>for\<close> loop visits: the elements of a list, the keys of a dict, the
  characters of a string.
\<close>

fun py_iter :: "json \<Rightarrow> json list result" where
  "py_iter (JArr xs) = Return xs"
| "py_iter (JObj kvs) = Return (map (\<lambda>kv. JStr (fst kv)) kvs)"
| "py_iter (JStr s) = Return (map (\<lambda>c. JStr [c]) s)"
| "py_iter JNull = Raise TypeError"
| "py_iter (JBool b) = Raise TypeError"
| "py_iter (JInt n) = Raise TypeError"

text \<open>
  \<^verbatim>\<open>x == y\<close>: a bool equals the int of the same value, lists compare element by
  element, dicts key by key whatever the order.
\<close>

fun py_eq :: "json \<Rightarrow> json \<Rightarrow> bool" where
  "py_eq JNull JNull = True"
| "py_eq (JBool a) (JBool b) = (a = b)"
| "py_eq (JBool a) (JInt n) = ((if a then 1 else 0) = n)"
| "py_eq (JInt n) (JBool a) = (n = (if a then 1 else 0))"
| "py_eq (JInt m) (JInt n) = (m = n)"
| "py_eq (JStr s) (JStr t) = (s = t)"
| "py_eq (JArr xs) (JArr ys) = list_all2 py_eq xs ys"
| "py_eq (JObj xs) (JObj ys) =
     (length xs = length ys \<and>
      list_all (\<lambda>(k, v). case map_of ys k of None \<Rightarrow> False | Some w \<Rightarrow> py_eq v w) xs)"
| "py_eq _ _ = False"

text \<open>
  \<^verbatim>\<open>x[0:19]\<close> as \<^verbatim>\<open>create_sitemap_item\<close> takes it: a slice of a string or of a list,
  \<^verbatim>\<open>TypeError\<close> on the shapes that cannot be sliced.
\<close>

fun py_slice19 :: "json \<Rightarrow> json result" where
  "py_slice19 (JStr s) = Return (JStr (take 19 s))"
| "py_slice19 (JArr xs) = Return (JArr (take 19 xs))"
| "py_slice19 JNull = Raise TypeError"
| "py_slice19 (JBool b) = Raise TypeError"
| "py_slice19 (JInt n) = Raise TypeError"
| "py_slice19 (JObj kvs) = Raise TypeError"

subsection \<open>Dicts the engine builds itself\<close>

text \<open>
  \<^verbatim>\<open>story_dictonary\<close> and the \<^verbatim>\<open>stories\<close> entry of the new metadata are dicts keyed by
  the \<^verbatim>\<open>anchor\<close> value of a story, which may be any hashable value. They are association
  lists in insertion order; an assignment replaces the value of an equal key or appends.
\<close>

type_synonym pydict = "(json \<times> json) list"

fun hashable :: "json \<Rightarrow> bool" where
  "hashable (JArr xs) = False"
| "hashable (JObj kvs) = False"
| "hashable _ = True"

fun dict_find :: "json \<Rightarrow> pydict \<Rightarrow> json option" where
  "dict_find k [] = None"
| "dict_find k ((k', v) # d) = (if py_eq k' k then Some v else dict_find k d)"

fun dict_put :: "json \<Rightarrow> json \<Rightarrow> pydict \<Rightarrow> pydict" where
  "dict_put k v [] = [(k, v)]"
| "dict_put k v ((k', v') # d) = (if py_eq k' k then (k', v) # d else (k', v') # dict_put k v d)"

definition dict_set :: "pydict \<Rightarrow> json \<Rightarrow> json \<Rightarrow> pydict result" where
  "dict_set d k v = (if hashable k then Return (dict_put k v d) else Raise TypeError)"

section \<open>The world outside the process\<close>

text \<open>
  The library functions the engine calls are parameters of the model: the JSON parser,
  which returns the value or raises (\<^verbatim>\<open>json.JSONDecodeError\<close> on a text that is not
  JSON, \<^verbatim>\<open>UnicodeDecodeError\<close> on bytes it cannot decode), the sorted-key serialiser
  and the SHA-256 hex digest behind the checksum, the serialiser of the metadata dict, and
  \<^verbatim>\<open>str()\<close> on a value that is not a string (used where an f-string formats one).
\<close>

record meta_obj =
  mo_checksum :: string
  mo_title :: json
  mo_entity :: json
  mo_homepage_url :: json
  mo_updated_at :: string
  mo_stories :: "pydict option"

record env =
  json_loads :: "string \<Rightarrow> json result"
  json_dumps_sorted :: "json \<Rightarrow> string"
  sha256_hex :: "string \<Rightarrow> string"
  json_dump_meta :: "meta_obj \<Rightarrow> string"
  py_str :: "json \<Rightarrow> string"

definition format :: "env \<Rightarrow> json \<Rightarrow> string" where
  "format e j = (case j of JStr s \<Rightarrow> s | _ \<Rightarrow> py_str e j)"

text \<open>
  The disk: the content directory \<^verbatim>\<open>www/\<close> as a flat directory of regular files, the
  snapshot root \<^verbatim>\<open>.nrtk/bin/\<close> as a directory of flat snapshot directories, and the
  metadata file \<^verbatim>\<open>.nrtk/meta.json\<close>. A directory is the finite map an association list
  denotes; its listing is the list's keys. File operations fail only for the reasons the
  model can see (a missing entry, a missing directory, a name that is not a single path
  component); permissions, quotas and concurrent writers are not modelled. A name that is
  not a single path component would reach outside these flat directories (an empty
  checksum names the snapshot root itself, an anchor with a slash a file elsewhere): the
  model stops there, with \<open>OSError\<close>, or \<open>SystemExit\<close> in \<open>check_dir\<close>, whatever the
  code does. Every statement below about files is about names that are single path
  components (\<open>plain_name\<close>, through \<open>doc_ok\<close> and \<open>meta_ok\<close>).
\<close>

type_synonym dir = "(string \<times> string) list"

record fs =
  www :: dir
  bin_root :: "(string \<times> dir) list"
  meta_file :: "string option"

definition plain_name :: "string \<Rightarrow> bool" where
  "plain_name n = (n \<noteq> [] \<and> n \<noteq> ''.'' \<and> n \<noteq> ''..'' \<and> CHR ''/'' \<notin> set n \<and> CHR 0x00 \<notin> set n)"

definition listdir :: "dir \<Rightarrow> string list" where
  "listdir d = remdups (map fst d)"

text \<open>
  \<^verbatim>\<open>with open(www/name, "w") as f: f.write(x)\<close>: opening creates or truncates the
  file; the argument of \<^verbatim>\<open>write\<close> is evaluated after that, so when it raises, or is not
  a string (\<^verbatim>\<open>TypeError\<close>), the file is left empty.
\<close>

definition write_www :: "string \<Rightarrow> json result \<Rightarrow> fs \<Rightarrow> unit result \<times> fs" where
  "write_www name x d =
     (if \<not> plain_name name then (Raise OSError, d)
      else case x of
          Raise err \<Rightarrow> (Raise err, d\<lparr>www := AList.update name [] (www d)\<rparr>)
        | Return v \<Rightarrow>
            (case v of
               JStr c \<Rightarrow> (Return (), d\<lparr>www := AList.update name c (www d)\<rparr>)
             | _ \<Rightarrow> (Raise TypeError, d\<lparr>www := AList.update name [] (www d)\<rparr>)))"

text \<open>\<^verbatim>\<open>os.remove(www/name)\<close>.\<close>

definition remove_www :: "string \<Rightarrow> fs \<Rightarrow> unit result \<times> fs" where
  "remove_www name d =
     (case map_of (www d) name of
        None \<Rightarrow> (Raise OSError, d)
      | Some c \<Rightarrow> (Return (), d\<lparr>www := AList.delete name (www d)\<rparr>))"

text \<open>\<^verbatim>\<open>os.rename(www/name, bin/snap/name)\<close>: replaces an entry of that name in the snapshot.\<close>

definition rename_www_to_bin :: "string \<Rightarrow> string \<Rightarrow> fs \<Rightarrow> unit result \<times> fs" where
  "rename_www_to_bin name snap d =
     (case map_of (www d) name of
        None \<Rightarrow> (Raise OSError, d)
      | Some c \<Rightarrow>
          (case map_of (bin_root d) snap of
             None \<Rightarrow> (Raise OSError, d)
           | Some files \<Rightarrow>
               (Return (), d\<lparr>www := AList.delete name (www d),
                              bin_root := AList.update snap (AList.update name c files) (bin_root d)\<rparr>)))"

text \<open>\<^verbatim>\<open>os.rename(meta.json, bin/snap/meta.json)\<close>.\<close>

definition rename_meta_to_bin :: "string \<Rightarrow> fs \<Rightarrow> unit result \<times> fs" where
  "rename_meta_to_bin snap d =
     (case meta_file d of
        None \<Rightarrow> (Raise OSError, d)
      | Some c \<Rightarrow>
          (case map_of (bin_root d) snap of
             None \<Rightarrow> (Raise OSError, d)
           | Some files \<Rightarrow>
               (Return (), d\<lparr>meta_file := None,
                              bin_root := AList.update snap (AList.update ''meta.json'' c files) (bin_root d)\<rparr>)))"

text \<open>
  \<^verbatim>\<open>check_dir(bin/snap)\<close>: nothing to do when the directory exists, \<^verbatim>\<open>os.mkdir\<close>
  otherwise; when that fails the function calls \<^verbatim>\<open>exit()\<close>.
\<close>

definition check_dir :: "string \<Rightarrow> fs \<Rightarrow> bool result \<times> fs" where
  "check_dir snap d =
     (if map_of (bin_root d) snap \<noteq> None then (Return True, d)
      else if plain_name snap then (Return True, d\<lparr>bin_root := AList.update snap [] (bin_root d)\<rparr>)
      else (Raise SystemExit, d))"

text \<open>
  What \<^verbatim>\<open>urlopen\<close> did, and the clock, for one cycle. \<^verbatim>\<open>urlopen\<close> returns a
  response, raises \<^verbatim>\<open>HTTPError\<close> or \<^verbatim>\<open>URLError\<close>, or raises something else (a
  connection the server drops or a timeout while the status line is read: subclasses of
  \<^verbatim>\<open>OSError\<close> that are not \<^verbatim>\<open>URLError\<close>). Reading the body of a response gives
  its text or raises.
\<close>

record response =
  code :: int
  body :: "string result"

datatype net = HTTPError int | URLError | Failure exn | Response response

record world =
  net :: net
  clock :: string

section \<open>The engine\<close>

record nrtk =
  bin_path :: "string option"
  meta_file_content :: json
  meta_object :: "meta_obj option"
  story_dictonary :: pydict
  remote_data :: "json option"
  disk :: fs

text \<open>\<^verbatim>\<open>read_meta\<close>: only \<^verbatim>\<open>OSError\<close> is caught around \<^verbatim>\<open>json.load\<close>.\<close>

definition read_meta :: "env \<Rightarrow> fs \<Rightarrow> json result" where
  "read_meta e d =
     (case meta_file d of
        None \<Rightarrow> Return JNull
      | Some txt \<Rightarrow>
          (case json_loads e txt of
             Raise x \<Rightarrow> if x = OSError then Return JNull else Raise x
           | Return j \<Rightarrow> Return j))"

text \<open>
  \<^verbatim>\<open>fetch_content\<close>: \<^verbatim>\<open>HTTPError\<close> and \<^verbatim>\<open>URLError\<close> are caught and give
  \<^verbatim>\<open>None\<close>; any other exception of \<^verbatim>\<open>urlopen\<close> leaves the function.
\<close>

definition fetch_content :: "world \<Rightarrow> response option result" where
  "fetch_content w =
     (case net w of
        HTTPError c \<Rightarrow> Return None
      | URLError \<Rightarrow> Return None
      | Failure x \<Rightarrow> Raise x
      | Response r \<Rightarrow> Return (Some r))"

text \<open>\<^verbatim>\<open>json.load(response)\<close>: read the body, then parse the text.\<close>

definition json_load :: "env \<Rightarrow> response \<Rightarrow> json result" where
  "json_load e r = (case body r of Raise x \<Rightarrow> Raise x | Return txt \<Rightarrow> json_loads e txt)"

definition theme_required_fields :: "string list" where
  "theme_required_fields = [''homepage_url'', ''stories'', ''error_page'', ''entity'', ''title'']"

definition story_required_fields :: "string list" where
  "story_required_fields =
     [''canonical_url'', ''content'', ''anchor'', ''updated_at'', ''title'',
      ''is_landing'', ''hash'', ''uid'', ''credits'']"

text \<open>The loop over required fields: \<open>False\<close> at the first field that is not in the value.\<close>

fun has_fields :: "string list \<Rightarrow> json \<Rightarrow> bool result" where
  "has_fields [] j = Return True"
| "has_fields (f # fs) j =
     (case py_in f j of
        Raise x \<Rightarrow> Raise x
      | Return b \<Rightarrow> if b then has_fields fs j else Return False)"

text \<open>The loop over the stories: each valid story is stored under its anchor.\<close>

fun validate_stories :: "json list \<Rightarrow> pydict \<Rightarrow> bool result \<times> pydict" where
  "validate_stories [] d = (Return True, d)"
| "validate_stories (story # rest) d =
     (case has_fields story_required_fields story of
        Raise x \<Rightarrow> (Raise x, d)
      | Return b \<Rightarrow>
          if \<not> b then (Return False, d)
          else (case py_getitem story ''anchor'' of
                  Raise x \<Rightarrow> (Raise x, d)
                | Return a \<Rightarrow>
                    (case dict_set d a story of
                       Raise x \<Rightarrow> (Raise x, d)
                     | Return d' \<Rightarrow> validate_stories rest d')))"

text \<open>The block under \<^verbatim>\<open>if self.remote_data:\<close>.\<close>

definition validate_document :: "json \<Rightarrow> pydict \<Rightarrow> bool result \<times> pydict" where
  "validate_document rd d =
     (if \<not> truthy rd then (Return True, d)
      else case has_fields theme_required_fields rd of
          Raise x \<Rightarrow> (Raise x, d)
        | Return b \<Rightarrow>
            if \<not> b then (Return False, d)
            else (case py_getitem rd ''stories'' of
                    Raise x \<Rightarrow> (Raise x, d)
                  | Return sts \<Rightarrow>
                      (case py_len sts of
                         Raise x \<Rightarrow> (Raise x, d)
                       | Return n \<Rightarrow>
                           if n > 0
                           then (case py_iter sts of
                                   Raise x \<Rightarrow> (Raise x, d)
                                 | Return xs \<Rightarrow> validate_stories xs d)
                           else (Return True, d))))"

text \<open>The dict literal assigned to \<^verbatim>\<open>self.meta_object\<close>, evaluated entry by entry.\<close>

definition new_meta :: "env \<Rightarrow> string \<Rightarrow> json \<Rightarrow> meta_obj result" where
  "new_meta e now rd =
     (case py_getitem rd ''title'' of
        Raise x \<Rightarrow> Raise x
      | Return t \<Rightarrow>
          (case py_getitem rd ''entity'' of
             Raise x \<Rightarrow> Raise x
           | Return en \<Rightarrow>
               (case py_getitem rd ''homepage_url'' of
                  Raise x \<Rightarrow> Raise x
                | Return h \<Rightarrow>
                    Return \<lparr>mo_checksum = sha256_hex e (json_dumps_sorted e rd),
                            mo_title = t, mo_entity = en, mo_homepage_url = h,
                            mo_updated_at = now, mo_stories = None\<rparr>)))"

text \<open>
  \<^verbatim>\<open>validate_api_response\<close>: of what the \<^verbatim>\<open>try\<close> block raises, only
  \<^verbatim>\<open>json.JSONDecodeError\<close> is caught.
\<close>

definition validate_api_response :: "env \<Rightarrow> string \<Rightarrow> nrtk \<Rightarrow> response option \<Rightarrow> bool result \<times> nrtk" where
  "validate_api_response e now s resp =
     (case resp of
        None \<Rightarrow> (Raise AttributeError, s)
      | Some r \<Rightarrow>
          if code r = 200 then
            (case json_load e r of
               Raise x \<Rightarrow> if x = JSONDecodeError then (Return False, s) else (Raise x, s)
             | Return rd \<Rightarrow>
                 (case validate_document rd (story_dictonary s) of
                    (Raise x, d) \<Rightarrow> (Raise x, s\<lparr>remote_data := Some rd, story_dictonary := d\<rparr>)
                  | (Return b, d) \<Rightarrow>
                      if \<not> b then (Return False, s\<lparr>remote_data := Some rd, story_dictonary := d\<rparr>)
                      else (case new_meta e now rd of
                              Raise x \<Rightarrow> (Raise x, s\<lparr>remote_data := Some rd, story_dictonary := d\<rparr>)
                            | Return m \<Rightarrow>
                                (Return True, s\<lparr>remote_data := Some rd, story_dictonary := d,
                                                 meta_object := Some m\<rparr>))))
          else (Return False, s))"

text \<open>
  The test at the head of the loop body of \<^verbatim>\<open>clean_local_storage\<close>: the file name is a
  key of the previous metadata's story set. The conjunction is evaluated left to right.
\<close>

definition tracked :: "json \<Rightarrow> string \<Rightarrow> bool result" where
  "tracked m file =
     (if \<not> truthy m then Return False
      else case py_in ''stories'' m of
          Raise x \<Rightarrow> Raise x
        | Return b \<Rightarrow>
            if \<not> b then Return False
            else (case py_getitem m ''stories'' of
                    Raise x \<Rightarrow> Raise x
                  | Return st \<Rightarrow> if \<not> truthy st then Return False else py_in file st))"

text \<open>
  \<^verbatim>\<open>self.story_dictonary[file]['hash'] != self.meta_file_content['stories'][file]['hash']\<close>,
  the left operand first.
\<close>

definition hash_differs :: "pydict \<Rightarrow> json \<Rightarrow> string \<Rightarrow> bool result" where
  "hash_differs dict m file =
     (case dict_find (JStr file) dict of
        None \<Rightarrow> Raise KeyError
      | Some story \<Rightarrow>
          (case py_getitem story ''hash'' of
             Raise x \<Rightarrow> Raise x
           | Return h_new \<Rightarrow>
               (case py_getitem m ''stories'' of
                  Raise x \<Rightarrow> Raise x
                | Return st \<Rightarrow>
                    (case py_getitem st file of
                       Raise x \<Rightarrow> Raise x
                     | Return entry \<Rightarrow>
                         (case py_getitem entry ''hash'' of
                            Raise x \<Rightarrow> Raise x
                          | Return h_old \<Rightarrow> Return (\<not> py_eq h_new h_old))))))"

text \<open>One iteration of the loop of \<^verbatim>\<open>clean_local_storage\<close>.\<close>

definition clean_file :: "nrtk \<Rightarrow> string \<Rightarrow> unit result \<times> nrtk" where
  "clean_file s file =
     (case tracked (meta_file_content s) file of
        Raise x \<Rightarrow> (Raise x, s)
      | Return t \<Rightarrow>
          if t then
            (case bin_path s of
               None \<Rightarrow> (Return (), s)
             | Some snap \<Rightarrow>
                 if dict_find (JStr file) (story_dictonary s) \<noteq> None then
                   (case hash_differs (story_dictonary s) (meta_file_content s) file of
                      Raise x \<Rightarrow> (Raise x, s)
                    | Return b \<Rightarrow>
                        if b then (case rename_www_to_bin file snap (disk s) of
                                     (r, d) \<Rightarrow> (r, s\<lparr>disk := d\<rparr>))
                        else (Return (), s))
                 else (case rename_www_to_bin file snap (disk s) of
                         (r, d) \<Rightarrow> (r, s\<lparr>disk := d\<rparr>)))
          else (case remove_www file (disk s) of (r, d) \<Rightarrow> (r, s\<lparr>disk := d\<rparr>)))"

fun clean_files :: "string list \<Rightarrow> nrtk \<Rightarrow> unit result \<times> nrtk" where
  "clean_files [] s = (Return (), s)"
| "clean_files (file # rest) s =
     (case clean_file s file of
        (Raise x, s') \<Rightarrow> (Raise x, s')
      | (Return u, s') \<Rightarrow> clean_files rest s')"

definition clean_local_storage :: "nrtk \<Rightarrow> unit result \<times> nrtk" where
  "clean_local_storage s = clean_files (listdir (www (disk s))) s"

text \<open>\<^verbatim>\<open>create_sitemap_item\<close>; the priority arrives already formatted.\<close>

definition create_sitemap_item :: "env \<Rightarrow> json \<Rightarrow> json \<Rightarrow> string \<Rightarrow> string result" where
  "create_sitemap_item e url updated_at priority =
     (case py_slice19 updated_at of
        Raise x \<Rightarrow> Raise x
      | Return u \<Rightarrow>
          Return (''<url><loc>'' @ format e url @ ''</loc><lastmod>'' @ format e u
                  @ ''+00:00</lastmod><priority>'' @ priority @ ''</priority></url>''))"

definition sitemap_head :: string where
  \<open>sitemap_head =
     ''<?xml version="1.0" encoding="UTF-8"?>\<newline>''
     @ ''            <urlset xmlns="http://www.sitemaps.org/schemas/sitemap/0.9" \<newline>''
     @ ''            xmlns:xsi="http://www.w3.org/2001/XMLSchema-instance" \<newline>''
     @ ''            xsi:schemaLocation="http://www.sitemaps.org/schemas/sitemap/0.9 \<newline>''
     @ ''            http://www.sitemaps.org/schemas/sitemap/0.9/sitemap.xsd">\<newline>''
     @ ''            <!-- Created by Newsroom Toolkit www.newsroomtoolkit.com -->\<newline>''
     @ ''                ''\<close>

definition sitemap_foot :: string where
  "sitemap_foot = ''\<newline>            </urlset>''"

definition build_sitemap :: "string \<Rightarrow> nrtk \<Rightarrow> unit result \<times> nrtk" where
  "build_sitemap sitemap_items s =
     (case write_www ''sitemap.xml'' (Return (JStr (sitemap_head @ sitemap_items @ sitemap_foot))) (disk s) of
        (r, d) \<Rightarrow> (r, s\<lparr>disk := d\<rparr>))"

text \<open>
  The entry \<^verbatim>\<open>sync_stories\<close> records for a story in the new metadata, and its storing
  under the anchor.
\<close>

definition story_entry :: "json \<Rightarrow> json result" where
  "story_entry story =
     (case py_getitem story ''anchor'' of
        Raise x \<Rightarrow> Raise x
      | Return a \<Rightarrow>
          (case py_getitem story ''hash'' of
             Raise x \<Rightarrow> Raise x
           | Return h \<Rightarrow>
               (case py_getitem story ''canonical_url'' of
                  Raise x \<Rightarrow> Raise x
                | Return u \<Rightarrow>
                    (case py_getitem story ''updated_at'' of
                       Raise x \<Rightarrow> Raise x
                     | Return t \<Rightarrow>
                         Return (JObj [(''anchor'', a), (''hash'', h),
                                       (''canonical_url'', u), (''updated_at'', t)])))))"

definition record_story :: "json \<Rightarrow> json \<Rightarrow> nrtk \<Rightarrow> unit result \<times> nrtk" where
  "record_story a entry s =
     (case meta_object s of
        None \<Rightarrow> (Raise TypeError, s)
      | Some m \<Rightarrow>
          (case mo_stories m of
             None \<Rightarrow> (Raise KeyError, s)
           | Some st \<Rightarrow>
               (case dict_set st a entry of
                  Raise x \<Rightarrow> (Raise x, s)
                | Return st' \<Rightarrow> (Return (), s\<lparr>meta_object := Some (m\<lparr>mo_stories := Some st'\<rparr>)\<rparr>))))"

text \<open>
  One iteration of the loop of \<^verbatim>\<open>sync_stories\<close>: write the story's file, record the
  story in the new metadata, return its sitemap item.
\<close>

definition save_story :: "env \<Rightarrow> json \<Rightarrow> nrtk \<Rightarrow> string result \<times> nrtk" where
  "save_story e story s =
     (case py_getitem story ''anchor'' of
        Raise x \<Rightarrow> (Raise x, s)
      | Return a \<Rightarrow>
          (case write_www (format e a) (py_getitem story ''content'') (disk s) of
             (Raise x, d) \<Rightarrow> (Raise x, s\<lparr>disk := d\<rparr>)
           | (Return u, d) \<Rightarrow>
               (case story_entry story of
                  Raise x \<Rightarrow> (Raise x, s\<lparr>disk := d\<rparr>)
                | Return entry \<Rightarrow>
                    (case record_story a entry (s\<lparr>disk := d\<rparr>) of
                       (Raise x, s') \<Rightarrow> (Raise x, s')
                     | (Return u', s') \<Rightarrow>
                         (case py_getitem story ''canonical_url'' of
                            Raise x \<Rightarrow> (Raise x, s')
                          | Return url \<Rightarrow>
                              (case py_getitem story ''updated_at'' of
                                 Raise x \<Rightarrow> (Raise x, s')
                               | Return upd \<Rightarrow>
                                   (create_sitemap_item e url upd
                                      (if py_eq (JStr ''index'') a then ''1'' else ''0.8''), s')))))))"

fun save_stories :: "env \<Rightarrow> json list \<Rightarrow> string \<Rightarrow> nrtk \<Rightarrow> string result \<times> nrtk" where
  "save_stories e [] sitemap_items s = (Return sitemap_items, s)"
| "save_stories e (story # rest) sitemap_items s =
     (case save_story e story s of
        (Raise x, s') \<Rightarrow> (Raise x, s')
      | (Return item, s') \<Rightarrow> save_stories e rest (sitemap_items @ item) s')"

definition sync_stories :: "env \<Rightarrow> nrtk \<Rightarrow> unit result \<times> nrtk" where
  "sync_stories e s =
     (case clean_local_storage s of
        (Raise x, s1) \<Rightarrow> (Raise x, s1)
      | (Return u, s1) \<Rightarrow>
          (case meta_object s1 of
             None \<Rightarrow> (Raise TypeError, s1)
           | Some m \<Rightarrow>
               (case remote_data s1 of
                  None \<Rightarrow> (Raise AttributeError, s1\<lparr>meta_object := Some (m\<lparr>mo_stories := Some []\<rparr>)\<rparr>)
                | Some rd \<Rightarrow>
                    (case py_getitem rd ''stories'' of
                       Raise x \<Rightarrow> (Raise x, s1\<lparr>meta_object := Some (m\<lparr>mo_stories := Some []\<rparr>)\<rparr>)
                     | Return sts \<Rightarrow>
                         (case py_iter sts of
                            Raise x \<Rightarrow> (Raise x, s1\<lparr>meta_object := Some (m\<lparr>mo_stories := Some []\<rparr>)\<rparr>)
                          | Return xs \<Rightarrow>
                              (case save_stories e xs [] (s1\<lparr>meta_object := Some (m\<lparr>mo_stories := Some []\<rparr>)\<rparr>) of
                                 (Raise x, s2) \<Rightarrow> (Raise x, s2)
                               | (Return sitemap_items, s2) \<Rightarrow> build_sitemap sitemap_items s2))))))"

text \<open>\<^verbatim>\<open>save_error_page\<close>: only \<^verbatim>\<open>OSError\<close> is caught around the write.\<close>

definition save_error_page :: "nrtk \<Rightarrow> bool result \<times> nrtk" where
  "save_error_page s =
     (case remote_data s of
        None \<Rightarrow> (Raise AttributeError, s)
      | Some rd \<Rightarrow>
          if \<not> truthy rd then (Return False, s)
          else (case py_in ''error_page'' rd of
                  Raise x \<Rightarrow> (Raise x, s)
                | Return b \<Rightarrow>
                    if \<not> b then (Return False, s)
                    else (case write_www ''error.html'' (py_getitem rd ''error_page'') (disk s) of
                            (Raise x, d) \<Rightarrow>
                              (if x = OSError then (Return False, s\<lparr>disk := d\<rparr>)
                               else (Raise x, s\<lparr>disk := d\<rparr>))
                          | (Return u, d) \<Rightarrow> (Return True, s\<lparr>disk := d\<rparr>))))"

text \<open>
  \<^verbatim>\<open>save_meta\<close>: the old metadata file goes into the active snapshot, the new
  metadata is written in its place.
\<close>

definition save_meta :: "env \<Rightarrow> nrtk \<Rightarrow> bool result \<times> nrtk" where
  "save_meta e s =
     (case meta_object s of
        None \<Rightarrow> (Return False, s)
      | Some m \<Rightarrow>
          (case (case bin_path s of
                   None \<Rightarrow> (Return (), disk s)
                 | Some snap \<Rightarrow>
                     if meta_file (disk s) \<noteq> None then rename_meta_to_bin snap (disk s)
                     else (Return (), disk s)) of
             (Raise x, d) \<Rightarrow> (Raise x, s\<lparr>disk := d\<rparr>)
           | (Return u, d) \<Rightarrow>
               (Return True, s\<lparr>disk := d\<lparr>meta_file := Some (json_dump_meta e m)\<rparr>\<rparr>)))"

text \<open>
  The test of \<^verbatim>\<open>sync\<close> for a changed document:
  \<^verbatim>\<open>not meta or 'checksum' not in meta or meta['checksum'] != self.meta_object['checksum']\<close>.
\<close>

definition update_detected :: "nrtk \<Rightarrow> bool result" where
  "update_detected s =
     (if \<not> truthy (meta_file_content s) then Return True
      else case py_in ''checksum'' (meta_file_content s) of
          Raise x \<Rightarrow> Raise x
        | Return b \<Rightarrow>
            if \<not> b then Return True
            else (case py_getitem (meta_file_content s) ''checksum'' of
                    Raise x \<Rightarrow> Raise x
                  | Return c \<Rightarrow>
                      (case meta_object s of
                         None \<Rightarrow> Raise TypeError
                       | Some m \<Rightarrow> Return (\<not> py_eq c (JStr (mo_checksum m))))))"

text \<open>
  The snapshot step of \<^verbatim>\<open>sync\<close>: when the previous metadata has a checksum, the
  snapshot directory of that name becomes the active one and is created if missing.
  \<^verbatim>\<open>os.path.join\<close> takes a string only.
\<close>

definition create_snapshot :: "nrtk \<Rightarrow> unit result \<times> nrtk" where
  "create_snapshot s =
     (if \<not> truthy (meta_file_content s) then (Return (), s)
      else case py_in ''checksum'' (meta_file_content s) of
          Raise x \<Rightarrow> (Raise x, s)
        | Return b \<Rightarrow>
            if \<not> b then (Return (), s)
            else (case py_getitem (meta_file_content s) ''checksum'' of
                    Raise x \<Rightarrow> (Raise x, s)
                  | Return c \<Rightarrow>
                      (case c of
                         JStr snap \<Rightarrow>
                           (case check_dir snap (disk s) of
                              (Raise x, d) \<Rightarrow> (Raise x, s\<lparr>bin_path := Some snap, disk := d\<rparr>)
                            | (Return u, d) \<Rightarrow> (Return (), s\<lparr>bin_path := Some snap, disk := d\<rparr>))
                       | _ \<Rightarrow> (Raise TypeError, s))))"

text \<open>\<^verbatim>\<open>sync\<close>: both exits of the function return \<^verbatim>\<open>False\<close>.\<close>

definition sync :: "env \<Rightarrow> world \<Rightarrow> nrtk \<Rightarrow> bool result \<times> nrtk" where
  "sync e w s =
     (case fetch_content w of
        Raise x \<Rightarrow> (Raise x, s)
      | Return api_response \<Rightarrow>
          (case api_response of
             None \<Rightarrow> (Return False, s)
           | Some r \<Rightarrow>
               (case validate_api_response e (clock w) s (Some r) of
                  (Raise x, s1) \<Rightarrow> (Raise x, s1)
                | (Return valid, s1) \<Rightarrow>
                    if \<not> valid then (Return False, s1)
                    else (case update_detected s1 of
                            Raise x \<Rightarrow> (Raise x, s1)
                          | Return changed \<Rightarrow>
                              if \<not> changed then (Return False, s1)
                              else (case create_snapshot s1 of
                                      (Raise x, s2) \<Rightarrow> (Raise x, s2)
                                    | (Return u, s2) \<Rightarrow>
                                        (case sync_stories e s2 of
                                           (Raise x, s3) \<Rightarrow> (Raise x, s3)
                                         | (Return u', s3) \<Rightarrow>
                                             (case save_error_page s3 of
                                                (Raise x, s4) \<Rightarrow> (Raise x, s4)
                                              | (Return b, s4) \<Rightarrow>
                                                  (case save_meta e s4 of
                                                     (Raise x, s5) \<Rightarrow> (Raise x, s5)
                                                   | (Return b', s5) \<Rightarrow> (Return False, s5)))))))))"

text \<open>
  One turn of the main loop: \<^verbatim>\<open>sync.meta_file_content = sync.read_meta(); sync.sync()\<close>.
  The engine object, and with it \<^verbatim>\<open>story_dictonary\<close> and \<^verbatim>\<open>bin_path\<close>, lives on
  from one turn to the next.
\<close>

definition cycle :: "env \<Rightarrow> world \<Rightarrow> nrtk \<Rightarrow> bool result \<times> nrtk" where
  "cycle e w s =
     (case read_meta e (disk s) of
        Raise x \<Rightarrow> (Raise x, s)
      | Return m \<Rightarrow> sync e w (s\<lparr>meta_file_content := m\<rparr>))"

text \<open>The engine object right after \<^verbatim>\<open>NRTKSync()\<close>, on a given disk.\<close>

definition fresh :: "fs \<Rightarrow> nrtk" where
  "fresh d = \<lparr>bin_path = None, meta_file_content = JNull, meta_object = None,
              story_dictonary = [], remote_data = None, disk = d\<rparr>"

section \<open>A sample deployment\<close>

text \<open>
  Two versions of a small site, used to run the engine on concrete inputs. In the second
  version the story \<^verbatim>\<open>about\<close> is gone and the landing page has changed.
\<close>

definition story_index_v1 :: json where
  "story_index_v1 = JObj
     [(''canonical_url'', JStr ''https://example.org/''),
      (''content'', JStr ''<h1>Home</h1>''),
      (''anchor'', JStr ''index''),
      (''updated_at'', JStr ''2025-01-01T10:00:00.000000Z''),
      (''title'', JStr ''Home''),
      (''is_landing'', JBool True),
      (''hash'', JStr ''a''),
      (''uid'', JStr ''u1''),
      (''credits'', JStr '''')]"

definition story_about_v1 :: json where
  "story_about_v1 = JObj
     [(''canonical_url'', JStr ''https://example.org/about''),
      (''content'', JStr ''<p>About us</p>''),
      (''anchor'', JStr ''about''),
      (''updated_at'', JStr ''2025-01-01T11:00:00.000000Z''),
      (''title'', JStr ''About''),
      (''is_landing'', JBool False),
      (''hash'', JStr ''k''),
      (''uid'', JStr ''u2''),
      (''credits'', JStr '''')]"

definition story_index_v2 :: json where
  "story_index_v2 = JObj
     [(''canonical_url'', JStr ''https://example.org/''),
      (''content'', JStr ''<h1>Home, again</h1>''),
      (''anchor'', JStr ''index''),
      (''updated_at'', JStr ''2025-02-01T10:00:00.000000Z''),
      (''title'', JStr ''Home''),
      (''is_landing'', JBool True),
      (''hash'', JStr ''b''),
      (''uid'', JStr ''u1''),
      (''credits'', JStr '''')]"

definition site :: "json list \<Rightarrow> json" where
  "site sts = JObj
     [(''homepage_url'', JStr ''https://example.org/''),
      (''stories'', JArr sts),
      (''error_page'', JStr ''<h1>Not found</h1>''),
      (''entity'', JStr ''Example''),
      (''title'', JStr ''Example site'')]"

definition doc_v1 :: json where
  "doc_v1 = site [story_index_v1, story_about_v1]"

definition doc_v2 :: json where
  "doc_v2 = site [story_index_v2]"

text \<open>
  A third version: the landing page has new content under its old hash.
\<close>

definition story_index_edited :: json where
  "story_index_edited = JObj
     [(''canonical_url'', JStr ''https://example.org/''),
      (''content'', JStr ''<h1>Home, edited</h1>''),
      (''anchor'', JStr ''index''),
      (''updated_at'', JStr ''2025-01-01T10:00:00.000000Z''),
      (''title'', JStr ''Home''),
      (''is_landing'', JBool True),
      (''hash'', JStr ''a''),
      (''uid'', JStr ''u1''),
      (''credits'', JStr '''')]"

definition doc_v3 :: json where
  "doc_v3 = site [story_index_edited, story_about_v1]"

text \<open>
  Further documents: one whose only story is \<^verbatim>\<open>null\<close>, and documents with one story of
  a given anchor, content and hash. Further previous states: metadata that tracks one
  story under a given anchor and hash, and a fresh engine to which \<^verbatim>\<open>read_meta\<close> has
  returned it, the file of that story in the content directory.
\<close>

definition doc_null_story :: json where
  "doc_null_story = site [JNull]"

definition story_named :: "string \<Rightarrow> string \<Rightarrow> json \<Rightarrow> json" where
  "story_named a c h = JObj
     [(''canonical_url'', JStr ''https://example.org/page''),
      (''content'', JStr c),
      (''anchor'', JStr a),
      (''updated_at'', JStr ''2025-03-01T10:00:00.000000Z''),
      (''title'', JStr ''Page''),
      (''is_landing'', JBool False),
      (''hash'', h),
      (''uid'', JStr ''u9''),
      (''credits'', JStr '''')]"

definition doc_err :: json where
  "doc_err = site [story_named ''error.html'' ''<p>Story</p>'' (JStr ''b'')]"

definition doc_map :: json where
  "doc_map = site [story_named ''sitemap.xml'' ''<p>Map</p>'' (JStr ''m'')]"

definition doc_num :: json where
  "doc_num = site [story_named ''news'' ''<p>News</p>'' (JBool True)]"

definition meta_tracking :: "string \<Rightarrow> json \<Rightarrow> json" where
  "meta_tracking a h = JObj
     [(''checksum'', JStr ''sha256-of-old''),
      (''title'', JStr ''Example site''),
      (''entity'', JStr ''Example''),
      (''homepage_url'', JStr ''https://example.org/''),
      (''updated_at'', JStr ''2025-02-01 12:00:00+00:00''),
      (''stories'', JObj
         [(a, JObj [(''anchor'', JStr a), (''hash'', h),
                    (''canonical_url'', JStr ''https://example.org/page''),
                    (''updated_at'', JStr ''2025-02-01T10:00:00.000000Z'')])])]"

text \<open>
  The metadata the first cycle writes, as \<^verbatim>\<open>json.load\<close> returns it at the start of the
  second.
\<close>

definition meta_v1 :: json where
  "meta_v1 = JObj
     [(''checksum'', JStr ''sha256-of-v1''),
      (''title'', JStr ''Example site''),
      (''entity'', JStr ''Example''),
      (''homepage_url'', JStr ''https://example.org/''),
      (''updated_at'', JStr ''2025-01-01 12:00:00+00:00''),
      (''stories'', JObj
         [(''index'', JObj [(''anchor'', JStr ''index''), (''hash'', JStr ''a''),
                            (''canonical_url'', JStr ''https://example.org/''),
                            (''updated_at'', JStr ''2025-01-01T10:00:00.000000Z'')]),
          (''about'', JObj [(''anchor'', JStr ''about''), (''hash'', JStr ''k''),
                            (''canonical_url'', JStr ''https://example.org/about''),
                            (''updated_at'', JStr ''2025-01-01T11:00:00.000000Z'')])])]"

text \<open>
  The library on the texts of the sample: a table for the parser (one text it cannot
  decode, any other text is not JSON), and serialisers and a digest that name their
  argument.
\<close>

definition sample_loads :: "string \<Rightarrow> json result" where
  "sample_loads txt =
     (if txt = ''v1'' then Return doc_v1
      else if txt = ''v2'' then Return doc_v2
      else if txt = ''v3'' then Return doc_v3
      else if txt = ''null'' then Return JNull
      else if txt = ''{}'' then Return (JObj [])
      else if txt = ''null-story'' then Return doc_null_story
      else if txt = ''err'' then Return doc_err
      else if txt = ''map'' then Return doc_map
      else if txt = ''num'' then Return doc_num
      else if txt = ''meta sha256-of-v1'' then Return meta_v1
      else if txt = ''latin-1'' then Raise UnicodeDecodeError
      else Raise JSONDecodeError)"

definition sample_dumps :: "json \<Rightarrow> string" where
  "sample_dumps j =
     (if j = doc_v1 then ''v1'' else if j = doc_v2 then ''v2''
      else if j = doc_v3 then ''v3'' else if j = doc_err then ''err''
      else if j = doc_map then ''map'' else if j = doc_num then ''num'' else ''other'')"

definition sample_env :: env where
  "sample_env = \<lparr>json_loads = sample_loads,
                 json_dumps_sorted = sample_dumps,
                 sha256_hex = (\<lambda>t. ''sha256-of-'' @ t),
                 json_dump_meta = (\<lambda>m. ''meta '' @ mo_checksum m),
                 py_str = (\<lambda>j. ''?'')\<rparr>"

definition empty_disk :: fs where
  "empty_disk = \<lparr>www = [], bin_root = [], meta_file = None\<rparr>"

definition remote :: "string \<Rightarrow> string \<Rightarrow> world" where
  "remote txt now = \<lparr>net = Response \<lparr>code = 200, body = Return txt\<rparr>, clock = now\<rparr>"

text \<open>The engine after a first cycle on the first version, started on an empty disk.\<close>

definition after_v1 :: nrtk where
  "after_v1 = snd (cycle sample_env (remote ''v1'' ''2025-01-01 12:00:00+00:00'') (fresh empty_disk))"

text \<open>
  The same engine at the start of \<^verbatim>\<open>sync\<close> in its second cycle, \<^verbatim>\<open>read_meta\<close> having
  returned the metadata of the first; and in the middle of a second cycle, the snapshot
  of the first version opened.
\<close>

definition before_second :: nrtk where
  "before_second = after_v1\<lparr>meta_file_content := meta_v1\<rparr>"

definition reconciling :: nrtk where
  "reconciling = before_second\<lparr>bin_path := Some ''sha256-of-v1'',
                                disk := (disk after_v1)\<lparr>bin_root := [(''sha256-of-v1'', [])]\<rparr>\<rparr>"

definition tracking :: "string \<Rightarrow> json \<Rightarrow> string \<Rightarrow> nrtk" where
  "tracking a h c =
     (fresh \<lparr>www = [(a, c)], bin_root = [], meta_file = Some ''meta sha256-of-old''\<rparr>)
       \<lparr>meta_file_content := meta_tracking a h\<rparr>"

section \<open>Vocabulary of the statements\<close>

text \<open>The value under a key of an object, and the string under it.\<close>

definition field :: "string \<Rightarrow> json \<Rightarrow> json option" where
  "field k j = (case j of JObj kvs \<Rightarrow> map_of kvs k | _ \<Rightarrow> None)"

definition str_field :: "string \<Rightarrow> json \<Rightarrow> string option" where
  "str_field k j = (case field k j of Some v \<Rightarrow> (case v of JStr s \<Rightarrow> Some s | _ \<Rightarrow> None) | None \<Rightarrow> None)"

definition anchor_of :: "json \<Rightarrow> string" where
  "anchor_of story = (case str_field ''anchor'' story of Some a \<Rightarrow> a | None \<Rightarrow> [])"

definition content_of :: "json \<Rightarrow> string" where
  "content_of story = (case str_field ''content'' story of Some c \<Rightarrow> c | None \<Rightarrow> [])"

definition stories_of :: "json \<Rightarrow> json list" where
  "stories_of doc = (case field ''stories'' doc of Some v \<Rightarrow> (case v of JArr sts \<Rightarrow> sts | _ \<Rightarrow> []) | None \<Rightarrow> [])"

text \<open>The story set of a metadata record: the entries of its \<^verbatim>\<open>stories\<close> object.\<close>

definition story_set :: "json \<Rightarrow> (string \<times> json) list" where
  "story_set m = (case field ''stories'' m of Some v \<Rightarrow> (case v of JObj es \<Rightarrow> es | _ \<Rightarrow> []) | None \<Rightarrow> [])"


text \<open>What is on the disk: a live file, a file of a snapshot, a snapshot directory.\<close>

definition live :: "fs \<Rightarrow> string \<Rightarrow> string option" where
  "live d name = map_of (www d) name"

definition archived :: "fs \<Rightarrow> string \<Rightarrow> string \<Rightarrow> string option" where
  "archived d snap name = (case map_of (bin_root d) snap of None \<Rightarrow> None | Some files \<Rightarrow> map_of files name)"

definition has_snapshot :: "fs \<Rightarrow> string \<Rightarrow> bool" where
  "has_snapshot d snap = (map_of (bin_root d) snap \<noteq> None)"

text \<open>
  A story as the data model types it: an object with the nine required fields, whose
  anchor is a file name and whose content and timestamp are strings. A document as the
  data model types it: the five required fields, a list of such stories with unique
  anchors, an error page that is a string.
\<close>

definition story_ok :: "json \<Rightarrow> bool" where
  "story_ok story =
     (list_all (\<lambda>f. field f story \<noteq> None) story_required_fields
      \<and> (case str_field ''anchor'' story of Some a \<Rightarrow> plain_name a | None \<Rightarrow> False)
      \<and> str_field ''content'' story \<noteq> None
      \<and> str_field ''updated_at'' story \<noteq> None)"

definition doc_ok :: "json \<Rightarrow> bool" where
  "doc_ok doc =
     (list_all (\<lambda>f. field f doc \<noteq> None) theme_required_fields
      \<and> (case field ''stories'' doc of Some v \<Rightarrow> (case v of JArr sts \<Rightarrow> True | _ \<Rightarrow> False) | None \<Rightarrow> False)
      \<and> list_all story_ok (stories_of doc)
      \<and> distinct (map anchor_of (stories_of doc))
      \<and> str_field ''error_page'' doc \<noteq> None)"

text \<open>
  The previous metadata as \<^verbatim>\<open>save_meta\<close> writes it, or none: every entry of the
  story set has a hash, and the checksum is a string that names a directory.
\<close>

definition has_hash :: "json \<Rightarrow> bool" where
  "has_hash j = (field ''hash'' j \<noteq> None)"

definition meta_ok :: "json \<Rightarrow> bool" where
  "meta_ok m =
     (case m of
        JNull \<Rightarrow> True
      | JObj kvs \<Rightarrow>
          (case map_of kvs ''stories'' of
             None \<Rightarrow> True
           | Some v \<Rightarrow> (case v of JObj es \<Rightarrow> list_all (\<lambda>kv. has_hash (snd kv)) es | _ \<Rightarrow> False))
          \<and> (case map_of kvs ''checksum'' of
                None \<Rightarrow> True
              | Some c \<Rightarrow> (case c of JStr n \<Rightarrow> plain_name n | _ \<Rightarrow> False))
      | _ \<Rightarrow> False)"

text \<open>
  The engine between cycles: every story in the mapping has a hash (validation stores
  no other), and the active snapshot directory, if any, exists.
\<close>

definition dict_ok :: "pydict \<Rightarrow> bool" where
  "dict_ok d = list_all (\<lambda>kv. has_hash (snd kv)) d"

definition bin_ok :: "nrtk \<Rightarrow> bool" where
  "bin_ok s = (case bin_path s of None \<Rightarrow> True | Some snap \<Rightarrow> has_snapshot (disk s) snap)"

text \<open>The checksum \<^verbatim>\<open>validate_api_response\<close> computes for a document.\<close>

definition checksum_of :: "env \<Rightarrow> json \<Rightarrow> string" where
  "checksum_of e doc = sha256_hex e (json_dumps_sorted e doc)"

text \<open>
  What the loop of \<^verbatim>\<open>clean_local_storage\<close> does to a file of the content directory
  when no operation raises: the decision tree of its body, read off the previous
  metadata, the mapping and the active snapshot.
\<close>

datatype fate = Keep | Archive | Delete

definition same_hash :: "json \<Rightarrow> json \<Rightarrow> bool" where
  "same_hash story entry =
     (case field ''hash'' story of
        None \<Rightarrow> False
      | Some h_new \<Rightarrow> (case field ''hash'' entry of None \<Rightarrow> False | Some h_old \<Rightarrow> py_eq h_new h_old))"

definition fate_of :: "json \<Rightarrow> pydict \<Rightarrow> string option \<Rightarrow> string \<Rightarrow> fate" where
  "fate_of m dict bp file =
     (case map_of (story_set m) file of
        None \<Rightarrow> Delete
      | Some entry \<Rightarrow>
          (case bp of
             None \<Rightarrow> Keep
           | Some snap \<Rightarrow>
               (case dict_find (JStr file) dict of
                  None \<Rightarrow> Archive
                | Some story \<Rightarrow> if same_hash story entry then Keep else Archive)))"

text \<open>
  The mapping after validation has stored every story of a list under its anchor; the
  content the loop of \<^verbatim>\<open>sync_stories\<close> writes under a file name; the snapshot that
  is active after the snapshot step of \<^verbatim>\<open>sync\<close>.
\<close>

fun store_all :: "json list \<Rightarrow> pydict \<Rightarrow> pydict" where
  "store_all [] d = d"
| "store_all (st # sts) d = store_all sts (dict_put (JStr (anchor_of st)) st d)"

definition written :: "json list \<Rightarrow> string \<Rightarrow> string option" where
  "written sts = map_of (map (\<lambda>st. (anchor_of st, content_of st)) sts)"

definition active_snapshot :: "json \<Rightarrow> string option \<Rightarrow> string option" where
  "active_snapshot m bp = (case str_field ''checksum'' m of Some c \<Rightarrow> Some c | None \<Rightarrow> bp)"


section \<open>Evaluating the model on the sample\<close>

lemmas sample_defs = sample_env_def sample_loads_def sample_dumps_def doc_v1_def doc_v2_def doc_v3_def
  site_def story_index_v1_def story_about_v1_def story_index_v2_def story_index_edited_def meta_v1_def
  empty_disk_def remote_def fresh_def doc_null_story_def story_named_def doc_err_def doc_map_def
  doc_num_def meta_tracking_def tracking_def

lemmas engine_defs = cycle_def read_meta_def sync_def fetch_content_def json_load_def
  validate_api_response_def
  validate_document_def theme_required_fields_def story_required_fields_def dict_set_def new_meta_def
  update_detected_def create_snapshot_def check_dir_def sync_stories_def clean_local_storage_def
  listdir_def clean_file_def tracked_def hash_differs_def remove_www_def rename_www_to_bin_def
  save_story_def write_www_def plain_name_def format_def story_entry_def record_story_def
  create_sitemap_item_def build_sitemap_def save_error_page_def save_meta_def rename_meta_to_bin_def

section \<open>What validation leaves alone\<close>

lemma validate_api_response_frame:
  "disk (snd (validate_api_response e now s resp)) = disk s
   \<and> meta_file_content (snd (validate_api_response e now s resp)) = meta_file_content s
   \<and> bin_path (snd (validate_api_response e now s resp)) = bin_path s"
  by (simp add: validate_api_response_def split: option.split result.split prod.split)

lemma validate_api_response_checksum:
  assumes "validate_api_response e now s (Some r) = (Return True, s1)"
  shows "\<exists>doc m. json_load e r = Return doc \<and> meta_object s1 = Some m
           \<and> mo_checksum m = sha256_hex e (json_dumps_sorted e doc)"
  using assms
  by (auto simp: validate_api_response_def new_meta_def
           split: option.splits result.splits prod.splits if_splits)

lemma update_detected_same_checksum:
  assumes "py_getitem (meta_file_content s) ''checksum'' = Return (JStr c)"
      and "meta_object s = Some m" and "mo_checksum m = c"
  shows "update_detected s = Return False"
proof -
  obtain kvs where m: "meta_file_content s = JObj kvs"
    using assms(1) by (cases "meta_file_content s") simp_all
  with assms(1) have k: "map_of kvs ''checksum'' = Some (JStr c)"
    by (simp split: option.splits)
  then have "kvs \<noteq> []" by auto
  with m k assms(2,3) show ?thesis
    by (simp add: update_detected_def)
qed

section \<open>The unchanged cycle\<close>

text \<open>
  C1. When the previous metadata has a checksum and it equals the checksum computed
  from the document just fetched, the cycle leaves the disk as it found it: the content
  directory, the snapshot directories and the metadata file are the same afterwards.
\<close>

theorem sync_unchanged_leaves_disk:
  assumes prev: "py_getitem (meta_file_content s) ''checksum'' = Return (JStr c)"
      and fetched: "net w = Response r" "code r = 200" "json_load e r = Return doc"
      and same: "c = sha256_hex e (json_dumps_sorted e doc)"
  shows "disk (snd (sync e w s)) = disk s"
proof -
  have f: "fetch_content w = Return (Some r)" using fetched(1) by (simp add: fetch_content_def)
  obtain out s1 where v: "validate_api_response e (clock w) s (Some r) = (out, s1)"
    by (cases "validate_api_response e (clock w) s (Some r)")
  have fr: "disk s1 = disk s" "meta_file_content s1 = meta_file_content s"
    using validate_api_response_frame [of e "clock w" s "Some r"] v by simp_all
  show ?thesis
  proof (cases out)
    case (Raise x)
    with f v fr show ?thesis by (simp add: sync_def)
  next
    case (Return valid)
    show ?thesis
    proof (cases valid)
      case False
      with Return f v fr show ?thesis by (simp add: sync_def)
    next
      case True
      with Return v have "validate_api_response e (clock w) s (Some r) = (Return True, s1)" by simp
      from validate_api_response_checksum [OF this] fetched(3) same
      obtain m where "meta_object s1 = Some m" "mo_checksum m = c" by auto
      with prev fr have "update_detected s1 = Return False"
        by (intro update_detected_same_checksum [where c = c]) simp_all
      with True Return f v fr show ?thesis by (simp add: sync_def)
    qed
  qed
qed

text \<open>
  The theorem at the sample: the engine after the first cycle, its metadata read back,
  fetches the first version again.
\<close>

theorem sync_unchanged_leaves_disk_witness:
  "py_getitem (meta_file_content (after_v1\<lparr>meta_file_content := meta_v1\<rparr>)) ''checksum''
     = Return (JStr ''sha256-of-v1'')
   \<and> json_load sample_env \<lparr>code = 200, body = Return ''v1''\<rparr> = Return doc_v1
   \<and> ''sha256-of-v1'' = sha256_hex sample_env (json_dumps_sorted sample_env doc_v1)
   \<and> disk (snd (sync sample_env (remote ''v1'' ''later'') (after_v1\<lparr>meta_file_content := meta_v1\<rparr>)))
       = disk after_v1"
proof -
  have a: "py_getitem (meta_file_content (after_v1\<lparr>meta_file_content := meta_v1\<rparr>)) ''checksum''
             = Return (JStr ''sha256-of-v1'')"
    by (simp add: meta_v1_def)
  have b: "json_load sample_env \<lparr>code = 200, body = Return ''v1''\<rparr> = Return doc_v1"
    by (simp add: json_load_def sample_env_def sample_loads_def)
  have c: "''sha256-of-v1'' = sha256_hex sample_env (json_dumps_sorted sample_env doc_v1)"
    by (simp add: sample_env_def sample_dumps_def)
  have "disk (snd (sync sample_env (remote ''v1'' ''later'') (after_v1\<lparr>meta_file_content := meta_v1\<rparr>)))
          = disk (after_v1\<lparr>meta_file_content := meta_v1\<rparr>)"
    using a b c
    by (intro sync_unchanged_leaves_disk
          [where c = "''sha256-of-v1''" and r = "\<lparr>code = 200, body = Return ''v1''\<rparr>" and doc = doc_v1])
       (simp_all add: remote_def)
  with a b c show ?thesis by simp
qed

section \<open>The failed cycle\<close>

text \<open>
  The failures the code reports: \<^verbatim>\<open>HTTPError\<close> and \<^verbatim>\<open>URLError\<close>, a status other than
  200, a body that is not JSON, a document on which a field check answers that a
  required field is missing. For these the cycle returns \<open>False\<close> and the disk is the
  same afterwards.
\<close>

lemma sync_failure_leaves_disk:
  assumes "net w = URLError
           \<or> (\<exists>c. net w = HTTPError c)
           \<or> (\<exists>r. net w = Response r
                 \<and> (code r \<noteq> 200
                     \<or> json_load e r = Raise JSONDecodeError
                     \<or> (\<exists>doc. json_load e r = Return doc
                               \<and> fst (validate_document doc (story_dictonary s)) = Return False)))"
  shows "fst (sync e w s) = Return False \<and> disk (snd (sync e w s)) = disk s"
proof -
  consider (net) "fetch_content w = Return None"
    | (resp) r where "fetch_content w = Return (Some r)"
        "code r \<noteq> 200 \<or> json_load e r = Raise JSONDecodeError
         \<or> (\<exists>doc. json_load e r = Return doc
                  \<and> fst (validate_document doc (story_dictonary s)) = Return False)"
    using assms by (auto simp: fetch_content_def)
  then show ?thesis
  proof cases
    case net
    then show ?thesis by (simp add: sync_def)
  next
    case resp
    from resp(2) have "\<exists>s1. validate_api_response e (clock w) s (Some r) = (Return False, s1)
                            \<and> disk s1 = disk s"
      by (auto simp: validate_api_response_def split: prod.splits result.splits)
    with resp(1) show ?thesis by (auto simp: sync_def)
  qed
qed

text \<open>Inputs on which a field check answers that a required field is missing.\<close>

lemma has_fields_missing:
  assumes "f \<in> set fs" and "map_of kvs f = None"
  shows "has_fields fs (JObj kvs) = Return False"
  using assms by (induction fs) auto

lemma validate_document_missing_theme_field:
  assumes "kvs \<noteq> []" and "f \<in> set theme_required_fields" and "map_of kvs f = None"
  shows "validate_document (JObj kvs) d = (Return False, d)"
  using assms by (simp add: validate_document_def has_fields_missing)

text \<open>
  Whatever the fetch and the validation do, the disk is touched only after validation
  has returned \<open>True\<close>.
\<close>

lemma sync_leaves_disk_unless_valid:
  assumes "\<And>r. fetch_content w = Return (Some r)
            \<Longrightarrow> fst (validate_api_response e (clock w) s (Some r)) \<noteq> Return True"
  shows "disk (snd (sync e w s)) = disk s"
proof (cases "\<exists>r. fetch_content w = Return (Some r)")
  case False
  then show ?thesis by (auto simp: sync_def split: result.splits option.splits)
next
  case True
  then obtain r where r: "fetch_content w = Return (Some r)" ..
  obtain out s1 where v: "validate_api_response e (clock w) s (Some r) = (out, s1)"
    by (cases "validate_api_response e (clock w) s (Some r)")
  with validate_api_response_frame [of e "clock w" s "Some r"] have d: "disk s1 = disk s" by simp
  from assms [OF r] v have "out \<noteq> Return True" by simp
  with r v d show ?thesis by (cases out) (auto simp: sync_def)
qed

text \<open>
  C2. Failing cycles that do not return the unsuccessful signal. An empty object as
  document lacks every required field, and a document whose one story is \<^verbatim>\<open>null\<close>
  lacks every required story field: the checks are skipped, respectively applied to a
  value that has no \<^verbatim>\<open>in\<close>, and \<^verbatim>\<open>KeyError\<close>, respectively \<^verbatim>\<open>TypeError\<close>, leaves
  \<^verbatim>\<open>sync\<close>. A connection that fails with an exception other than \<^verbatim>\<open>URLError\<close>, and a
  body that cannot be decoded, leave \<^verbatim>\<open>sync\<close> as well. In each case the disk is the
  same afterwards.
\<close>

theorem sync_unreported_failures_raise:
  "fst (sync sample_env (remote ''{}'' now) s) = Raise KeyError
   \<and> disk (snd (sync sample_env (remote ''{}'' now) s)) = disk s
   \<and> fst (sync sample_env (remote ''null-story'' now) s) = Raise TypeError
   \<and> disk (snd (sync sample_env (remote ''null-story'' now) s)) = disk s
   \<and> fst (sync sample_env \<lparr>net = Failure OSError, clock = now\<rparr> s) = Raise OSError
   \<and> disk (snd (sync sample_env \<lparr>net = Failure OSError, clock = now\<rparr> s)) = disk s
   \<and> fst (sync sample_env (remote ''latin-1'' now) s) = Raise UnicodeDecodeError
   \<and> disk (snd (sync sample_env (remote ''latin-1'' now) s)) = disk s"
  by (simp add: sample_defs engine_defs)

section \<open>Exceptions that leave the engine\<close>

text \<open>
  C7. A metadata file that exists but is not JSON: \<^verbatim>\<open>json.load\<close> raises
  \<^verbatim>\<open>JSONDecodeError\<close>, which \<^verbatim>\<open>read_meta\<close> does not catch, so the read does not return
  "absent" but raises, and so does the turn of the main loop.
\<close>

theorem read_meta_malformed_raises:
  "read_meta sample_env (d\<lparr>meta_file := Some ''{''\<rparr>) = Raise JSONDecodeError
   \<and> fst (cycle sample_env w (s\<lparr>disk := d\<lparr>meta_file := Some ''{''\<rparr>\<rparr>)) = Raise JSONDecodeError"
  by (simp add: cycle_def read_meta_def sample_env_def sample_loads_def)

text \<open>
  C8. A body that is valid JSON but null, or an empty object: the checks under
  \<^verbatim>\<open>if self.remote_data:\<close> are skipped and building the new metadata subscripts the
  document, so \<^verbatim>\<open>TypeError\<close>, respectively \<^verbatim>\<open>KeyError\<close>, leaves \<^verbatim>\<open>sync\<close>.
\<close>

theorem sync_empty_document_raises:
  "fst (sync sample_env (remote ''null'' now) s) = Raise TypeError
   \<and> fst (sync sample_env (remote ''{}'' now) s) = Raise KeyError"
  by (simp add: sample_defs engine_defs)

text \<open>No exit of \<^verbatim>\<open>sync\<close> returns \<^verbatim>\<open>True\<close>.\<close>

lemma sync_never_True: "fst (sync e w s) \<noteq> Return True"
  by (simp add: sync_def split: option.split prod.split result.split)

text \<open>
  C9. A cycle that fetches, validates and stores the first version on an empty disk
  returns \<open>False\<close>, the value a failed cycle returns too.
\<close>

theorem sync_success_returns_False:
  "fst (sync sample_env (remote ''v1'' now) (fresh empty_disk)) = Return False
   \<and> map_of (www (disk (snd (sync sample_env (remote ''v1'' now) (fresh empty_disk))))) ''index''
       = Some ''<h1>Home</h1>''
   \<and> meta_file (disk (snd (sync sample_env (remote ''v1'' now) (fresh empty_disk))))
       = Some ''meta sha256-of-v1''
   \<and> fst (sync sample_env (remote ''{'' now) (fresh empty_disk)) = Return False"
  by (simp add: sample_defs engine_defs)

section \<open>Lemmas about the operators and the mapping\<close>


lemma field_getitem: "field k j = Some v \<Longrightarrow> py_getitem j k = Return v"
  by (cases j) (simp_all add: field_def)

lemma field_in: "field k j = Some v \<Longrightarrow> py_in k j = Return True"
  by (cases j) (simp_all add: field_def)

lemma field_truthy: "field k j = Some v \<Longrightarrow> truthy j"
  by (cases j) (auto simp: field_def)

lemma str_field_field: "str_field k j = Some s \<Longrightarrow> field k j = Some (JStr s)"
  by (auto simp: str_field_def split: option.splits json.splits)

lemma py_eq_JStr_right [simp]: "py_eq x (JStr a) = (x = JStr a)"
  by (cases x) simp_all

lemma py_eq_JStr_left [simp]: "py_eq (JStr a) x = (x = JStr a)"
  by (cases x) auto

lemma has_fields_present:
  "list_all (\<lambda>f. field f j \<noteq> None) fs \<Longrightarrow> has_fields fs j = Return True"
  by (induction fs) (auto simp: field_in)

lemma has_fields_object:
  "has_fields fs (JObj kvs) = Return True \<Longrightarrow> f \<in> set fs \<Longrightarrow> map_of kvs f \<noteq> None"
  by (induction fs) (auto split: if_splits)

subsection \<open>The mapping\<close>

lemma dict_find_put_str:
  "dict_find (JStr a) (dict_put (JStr b) v d) = (if a = b then Some v else dict_find (JStr a) d)"
  by (induction d) auto

lemma dict_find_put_other:
  "k \<noteq> JStr a \<Longrightarrow> dict_find (JStr a) (dict_put k v d) = dict_find (JStr a) d"
  by (induction d) auto

lemma dict_find_put_keeps:
  "dict_find k d \<noteq> None \<Longrightarrow> dict_find k (dict_put k' v d) \<noteq> None"
  by (induction d) auto

lemma dict_ok_put: "dict_ok d \<Longrightarrow> has_hash v \<Longrightarrow> dict_ok (dict_put k v d)"
  by (induction d) (auto simp: dict_ok_def)

lemma dict_ok_find: "dict_ok d \<Longrightarrow> dict_find k d = Some v \<Longrightarrow> has_hash v"
  by (induction d) (auto simp: dict_ok_def split: if_splits)

lemma validate_stories_Cons:
  assumes "validate_stories (st # sts) d = (out, d')"
  shows "d' = d
         \<or> (\<exists>a. py_getitem st ''anchor'' = Return a
                 \<and> has_fields story_required_fields st = Return True
                 \<and> validate_stories sts (dict_put a st d) = (out, d'))"
  using assms by (auto simp: dict_set_def split: result.splits if_splits)

lemma validated_story_has_hash:
  assumes "py_getitem st ''anchor'' = Return a"
      and "has_fields story_required_fields st = Return True"
  shows "has_hash st"
proof -
  from assms(1) obtain kvs where st: "st = JObj kvs" by (cases st) simp_all
  with assms(2) have "map_of kvs ''hash'' \<noteq> None"
    by (intro has_fields_object [where fs = story_required_fields])
       (simp_all add: story_required_fields_def)
  then show ?thesis by (simp add: has_hash_def field_def st)
qed

lemma validate_stories_dict_ok:
  "validate_stories sts d = (out, d') \<Longrightarrow> dict_ok d \<Longrightarrow> dict_ok d'"
proof (induction sts arbitrary: d)
  case Nil
  then show ?case by simp
next
  case (Cons st sts)
  from validate_stories_Cons [OF Cons.prems(1)] show ?case
  proof
    assume "d' = d"
    with Cons.prems(2) show ?thesis by simp
  next
    assume "\<exists>a. py_getitem st ''anchor'' = Return a
                 \<and> has_fields story_required_fields st = Return True
                 \<and> validate_stories sts (dict_put a st d) = (out, d')"
    then obtain a where a: "py_getitem st ''anchor'' = Return a"
      "has_fields story_required_fields st = Return True"
      "validate_stories sts (dict_put a st d) = (out, d')" by blast
    from a(1,2) have "has_hash st" by (rule validated_story_has_hash)
    with Cons.prems(2) have "dict_ok (dict_put a st d)" by (rule dict_ok_put)
    with a(3) show ?thesis by (rule Cons.IH)
  qed
qed

lemma validate_stories_keeps:
  "validate_stories sts d = (out, d') \<Longrightarrow> dict_find k d \<noteq> None \<Longrightarrow> dict_find k d' \<noteq> None"
proof (induction sts arbitrary: d)
  case Nil
  then show ?case by simp
next
  case (Cons st sts)
  from validate_stories_Cons [OF Cons.prems(1)] show ?case
  proof
    assume "d' = d"
    with Cons.prems(2) show ?thesis by simp
  next
    assume "\<exists>a. py_getitem st ''anchor'' = Return a
                 \<and> has_fields story_required_fields st = Return True
                 \<and> validate_stories sts (dict_put a st d) = (out, d')"
    then obtain a where a: "validate_stories sts (dict_put a st d) = (out, d')" by blast
    from Cons.prems(2) have "dict_find k (dict_put a st d) \<noteq> None" by (rule dict_find_put_keeps)
    with a show ?thesis by (rule Cons.IH)
  qed
qed

text \<open>On stories typed as the data model says, validation stores each under its anchor.\<close>

lemma story_ok_fields:
  assumes "story_ok st"
  shows "has_fields story_required_fields st = Return True"
    and "py_getitem st ''anchor'' = Return (JStr (anchor_of st))"
    and "py_getitem st ''content'' = Return (JStr (content_of st))"
    and "plain_name (anchor_of st)"
    and "has_hash st"
proof -
  from assms show "has_fields story_required_fields st = Return True"
    by (simp add: story_ok_def has_fields_present)
  from assms obtain a where a: "str_field ''anchor'' st = Some a" "plain_name a"
    by (auto simp: story_ok_def split: option.splits)
  then show "py_getitem st ''anchor'' = Return (JStr (anchor_of st))"
    by (simp add: anchor_of_def field_getitem str_field_field)
  from a show "plain_name (anchor_of st)" by (simp add: anchor_of_def)
  from assms obtain c where "str_field ''content'' st = Some c"
    by (auto simp: story_ok_def)
  then show "py_getitem st ''content'' = Return (JStr (content_of st))"
    by (simp add: content_of_def field_getitem str_field_field)
  from assms show "has_hash st"
    by (simp add: story_ok_def has_hash_def story_required_fields_def)
qed

lemma validate_stories_ok:
  "list_all story_ok sts \<Longrightarrow> validate_stories sts d = (Return True, store_all sts d)"
  by (induction sts arbitrary: d) (simp_all add: story_ok_fields dict_set_def)

lemma store_all_absent:
  "a \<notin> set (map anchor_of sts) \<Longrightarrow> dict_find (JStr a) (store_all sts d) = dict_find (JStr a) d"
  by (induction sts arbitrary: d) (auto simp: dict_find_put_str)


lemma store_all_dict_ok:
  "list_all story_ok sts \<Longrightarrow> dict_ok d \<Longrightarrow> dict_ok (store_all sts d)"
  by (induction sts arbitrary: d) (simp_all add: dict_ok_put story_ok_fields)


subsection \<open>File operations, seen through the views\<close>

lemma remove_www_views:
  assumes "live d name = Some c"
  shows "\<exists>d'. remove_www name d = (Return (), d')
           \<and> (\<forall>f. live d' f = (if f = name then None else live d f))
           \<and> (\<forall>snap f. archived d' snap f = archived d snap f)
           \<and> (\<forall>snap. has_snapshot d' snap = has_snapshot d snap)
           \<and> meta_file d' = meta_file d"
  using assms
  by (simp add: remove_www_def live_def archived_def has_snapshot_def delete_conv')

lemma rename_www_to_bin_views:
  assumes "live d name = Some c" and "has_snapshot d snap"
  shows "\<exists>d'. rename_www_to_bin name snap d = (Return (), d')
           \<and> (\<forall>f. live d' f = (if f = name then None else live d f))
           \<and> (\<forall>sn f. archived d' sn f = (if sn = snap \<and> f = name then Some c else archived d sn f))
           \<and> (\<forall>sn. has_snapshot d' sn = has_snapshot d sn)
           \<and> meta_file d' = meta_file d"
  using assms
  by (auto simp: rename_www_to_bin_def live_def archived_def has_snapshot_def
                 delete_conv' update_conv')

lemma write_www_views:
  assumes "plain_name name"
  shows "\<exists>d'. write_www name (Return (JStr c)) d = (Return (), d')
           \<and> (\<forall>f. live d' f = (if f = name then Some c else live d f))
           \<and> (\<forall>snap f. archived d' snap f = archived d snap f)
           \<and> (\<forall>snap. has_snapshot d' snap = has_snapshot d snap)
           \<and> meta_file d' = meta_file d"
  using assms
  by (simp add: write_www_def live_def archived_def has_snapshot_def update_conv')

subsection \<open>Reconciliation\<close>

lemma tracked_meta_ok:
  assumes "meta_ok m"
  shows "tracked m file = Return (map_of (story_set m) file \<noteq> None)"
proof (cases m)
  case (JObj kvs)
  show ?thesis
  proof (cases "map_of kvs ''stories''")
    case None
    with JObj show ?thesis by (simp add: tracked_def story_set_def field_def)
  next
    case (Some v)
    with JObj assms obtain es where "v = JObj es"
      by (cases v) (simp_all add: meta_ok_def)
    with JObj Some show ?thesis
      by (auto simp: tracked_def story_set_def field_def)
  qed
qed (use assms in \<open>simp_all add: meta_ok_def tracked_def story_set_def field_def\<close>)

lemma meta_ok_entry:
  assumes "meta_ok m" and "map_of (story_set m) file = Some entry"
  shows "has_hash entry \<and> py_getitem m ''stories'' = Return (JObj (story_set m))"
proof -
  from assms(2) obtain v where v: "field ''stories'' m = Some v"
    by (auto simp: story_set_def split: option.splits)
  with assms(2) obtain es where es: "v = JObj es" "story_set m = es"
    by (cases v) (auto simp: story_set_def)
  from v obtain kvs where m: "m = JObj kvs" "map_of kvs ''stories'' = Some v"
    by (cases m) (auto simp: field_def)
  with assms(1) es have "list_all (\<lambda>kv. has_hash (snd kv)) es" by (simp add: meta_ok_def)
  moreover from assms(2) es have "(file, entry) \<in> set es" by (auto dest: map_of_SomeD)
  ultimately have "has_hash entry" by (auto simp: list_all_iff)
  with v es show ?thesis by (simp add: field_getitem)
qed

lemma hash_differs_ok:
  assumes "meta_ok m" and "dict_ok dict"
      and "map_of (story_set m) file = Some entry"
      and "dict_find (JStr file) dict = Some story"
  shows "hash_differs dict m file = Return (\<not> same_hash story entry)"
proof -
  from assms(2,4) have "has_hash story" by (rule dict_ok_find)
  then obtain h_new where hn: "field ''hash'' story = Some h_new" by (auto simp: has_hash_def)
  from meta_ok_entry [OF assms(1,3)]
  obtain h_old where ho: "field ''hash'' entry = Some h_old"
    and st: "py_getitem m ''stories'' = Return (JObj (story_set m))" by (auto simp: has_hash_def)
  from hn ho st assms(3,4) show ?thesis
    by (simp add: hash_differs_def same_hash_def field_getitem)
qed

lemma clean_file_views:
  assumes "meta_ok (meta_file_content s)" and "dict_ok (story_dictonary s)" and "bin_ok s"
      and "live (disk s) file = Some c"
  shows "\<exists>d'. clean_file s file = (Return (), s\<lparr>disk := d'\<rparr>)
           \<and> (\<forall>f. live d' f =
                 (if f = file \<and> fate_of (meta_file_content s) (story_dictonary s) (bin_path s) file \<noteq> Keep
                  then None else live (disk s) f))
           \<and> (\<forall>sn f. archived d' sn f =
                 (if bin_path s = Some sn \<and> f = file
                     \<and> fate_of (meta_file_content s) (story_dictonary s) (bin_path s) file = Archive
                  then Some c else archived (disk s) sn f))
           \<and> (\<forall>sn. has_snapshot d' sn = has_snapshot (disk s) sn)
           \<and> meta_file d' = meta_file (disk s)"
proof (cases "map_of (story_set (meta_file_content s)) file")
  case None
  from remove_www_views [OF assms(4)] obtain d' where
    "remove_www file (disk s) = (Return (), d')"
    "\<forall>f. live d' f = (if f = file then None else live (disk s) f)"
    "\<forall>snap f. archived d' snap f = archived (disk s) snap f"
    "\<forall>snap. has_snapshot d' snap = has_snapshot (disk s) snap"
    "meta_file d' = meta_file (disk s)" by blast
  with None assms(1) show ?thesis
    by (intro exI [where x = d']) (simp add: clean_file_def tracked_meta_ok fate_of_def)
next
  case (Some entry)
  note tr = tracked_meta_ok [OF assms(1), of "file"]
  show ?thesis
  proof (cases "bin_path s")
    case None
    with Some tr show ?thesis
      by (intro exI [where x = "disk s"]) (simp add: clean_file_def fate_of_def)
  next
    case bp: (Some snap)
    with assms(3) have hs: "has_snapshot (disk s) snap" by (simp add: bin_ok_def)
    from rename_www_to_bin_views [OF assms(4) hs] obtain d' where mv:
      "rename_www_to_bin file snap (disk s) = (Return (), d')"
      "\<forall>f. live d' f = (if f = file then None else live (disk s) f)"
      "\<forall>sn f. archived d' sn f = (if sn = snap \<and> f = file then Some c else archived (disk s) sn f)"
      "\<forall>sn. has_snapshot d' sn = has_snapshot (disk s) sn"
      "meta_file d' = meta_file (disk s)" by blast
    show ?thesis
    proof (cases "dict_find (JStr file) (story_dictonary s)")
      case None
      with Some bp tr mv show ?thesis
        by (intro exI [where x = d']) (auto simp: clean_file_def fate_of_def)
    next
      case st: (Some story)
      note hd = hash_differs_ok [OF assms(1,2) Some st]
      show ?thesis
      proof (cases "same_hash story entry")
        case True
        with Some bp tr st hd show ?thesis
          by (intro exI [where x = "disk s"]) (simp add: clean_file_def fate_of_def)
      next
        case False
        with Some bp tr st hd mv show ?thesis
          by (intro exI [where x = d']) (auto simp: clean_file_def fate_of_def)
      qed
    qed
  qed
qed


lemma clean_files_views:
  assumes "distinct names" and "\<forall>f\<in>set names. live (disk s) f \<noteq> None"
      and "meta_ok (meta_file_content s)" and "dict_ok (story_dictonary s)" and "bin_ok s"
  shows "\<exists>d'. clean_files names s = (Return (), s\<lparr>disk := d'\<rparr>)
           \<and> (\<forall>f. live d' f =
                 (if f \<in> set names \<and> fate_of (meta_file_content s) (story_dictonary s) (bin_path s) f \<noteq> Keep
                  then None else live (disk s) f))
           \<and> (\<forall>sn f. archived d' sn f =
                 (if bin_path s = Some sn \<and> f \<in> set names
                     \<and> fate_of (meta_file_content s) (story_dictonary s) (bin_path s) f = Archive
                  then live (disk s) f else archived (disk s) sn f))
           \<and> (\<forall>sn. has_snapshot d' sn = has_snapshot (disk s) sn)
           \<and> meta_file d' = meta_file (disk s)"
  using assms
proof (induction names arbitrary: s)
  case Nil
  show ?case by (intro exI [where x = "disk s"]) simp
next
  case (Cons name names)
  from Cons.prems(2) obtain c where c: "live (disk s) name = Some c" by auto
  from clean_file_views [OF Cons.prems(3,4,5) c] obtain d1 where d1:
    "clean_file s name = (Return (), s\<lparr>disk := d1\<rparr>)"
    "\<forall>f. live d1 f =
        (if f = name \<and> fate_of (meta_file_content s) (story_dictonary s) (bin_path s) name \<noteq> Keep
         then None else live (disk s) f)"
    "\<forall>sn f. archived d1 sn f =
        (if bin_path s = Some sn \<and> f = name
            \<and> fate_of (meta_file_content s) (story_dictonary s) (bin_path s) name = Archive
         then Some c else archived (disk s) sn f)"
    "\<forall>sn. has_snapshot d1 sn = has_snapshot (disk s) sn"
    "meta_file d1 = meta_file (disk s)" by blast
  let ?s1 = "s\<lparr>disk := d1\<rparr>"
  have p1: "distinct names" using Cons.prems(1) by simp
  have p2: "\<forall>f\<in>set names. live (disk ?s1) f \<noteq> None"
    using Cons.prems(1,2) d1(2) by auto
  have p3: "meta_ok (meta_file_content ?s1)" "dict_ok (story_dictonary ?s1)"
    using Cons.prems(3,4) by simp_all
  have p4: "bin_ok ?s1" using Cons.prems(5) d1(4) by (simp add: bin_ok_def split: option.splits)
  from Cons.IH [OF p1 p2 p3 p4] obtain d' where d':
    "clean_files names ?s1 = (Return (), ?s1\<lparr>disk := d'\<rparr>)"
    "\<forall>f. live d' f =
        (if f \<in> set names
            \<and> fate_of (meta_file_content ?s1) (story_dictonary ?s1) (bin_path ?s1) f \<noteq> Keep
         then None else live (disk ?s1) f)"
    "\<forall>sn f. archived d' sn f =
        (if bin_path ?s1 = Some sn \<and> f \<in> set names
            \<and> fate_of (meta_file_content ?s1) (story_dictonary ?s1) (bin_path ?s1) f = Archive
         then live (disk ?s1) f else archived (disk ?s1) sn f)"
    "\<forall>sn. has_snapshot d' sn = has_snapshot (disk ?s1) sn"
    "meta_file d' = meta_file (disk ?s1)" by blast
  have n: "name \<notin> set names" using Cons.prems(1) by simp
  show ?case
  proof (intro exI [where x = d'] conjI allI)
    show "clean_files (name # names) s = (Return (), s\<lparr>disk := d'\<rparr>)"
      using d1(1) d'(1) by simp
  next
    fix f
    show "live d' f =
        (if f \<in> set (name # names)
            \<and> fate_of (meta_file_content s) (story_dictonary s) (bin_path s) f \<noteq> Keep
         then None else live (disk s) f)"
      using d'(2) d1(2) n by auto
  next
    fix sn f
    show "archived d' sn f =
        (if bin_path s = Some sn \<and> f \<in> set (name # names)
            \<and> fate_of (meta_file_content s) (story_dictonary s) (bin_path s) f = Archive
         then live (disk s) f else archived (disk s) sn f)"
      using d'(3) d1(2,3) n c by auto
  next
    fix sn
    show "has_snapshot d' sn = has_snapshot (disk s) sn" using d'(4) d1(4) by simp
  next
    show "meta_file d' = meta_file (disk s)" using d'(5) d1(5) by simp
  qed
qed

lemma listdir_set: "f \<in> set (listdir d) \<longleftrightarrow> map_of d f \<noteq> None"
  by (simp add: listdir_def map_of_eq_None_iff)

lemma clean_local_storage_views:
  assumes "meta_ok (meta_file_content s)" and "dict_ok (story_dictonary s)" and "bin_ok s"
  shows "\<exists>d'. clean_local_storage s = (Return (), s\<lparr>disk := d'\<rparr>)
           \<and> (\<forall>f. live d' f =
                 (if fate_of (meta_file_content s) (story_dictonary s) (bin_path s) f \<noteq> Keep
                  then None else live (disk s) f))
           \<and> (\<forall>sn f. archived d' sn f =
                 (if bin_path s = Some sn \<and> live (disk s) f \<noteq> None
                     \<and> fate_of (meta_file_content s) (story_dictonary s) (bin_path s) f = Archive
                  then live (disk s) f else archived (disk s) sn f))
           \<and> (\<forall>sn. has_snapshot d' sn = has_snapshot (disk s) sn)
           \<and> meta_file d' = meta_file (disk s)"
proof -
  let ?fate = "fate_of (meta_file_content s) (story_dictonary s) (bin_path s)"
  have a: "distinct (listdir (www (disk s)))" by (simp add: listdir_def)
  have b: "\<forall>f\<in>set (listdir (www (disk s))). live (disk s) f \<noteq> None"
    by (simp add: listdir_set live_def)
  from clean_files_views [OF a b assms] obtain d' where d':
    "clean_files (listdir (www (disk s))) s = (Return (), s\<lparr>disk := d'\<rparr>)"
    "\<forall>f. live d' f =
        (if f \<in> set (listdir (www (disk s))) \<and> ?fate f \<noteq> Keep then None else live (disk s) f)"
    "\<forall>sn f. archived d' sn f =
        (if bin_path s = Some sn \<and> f \<in> set (listdir (www (disk s))) \<and> ?fate f = Archive
         then live (disk s) f else archived (disk s) sn f)"
    "\<forall>sn. has_snapshot d' sn = has_snapshot (disk s) sn"
    "meta_file d' = meta_file (disk s)" by blast
  have l: "f \<in> set (listdir (www (disk s))) \<longleftrightarrow> live (disk s) f \<noteq> None" for f
    by (simp add: listdir_set live_def)
  show ?thesis
  proof (intro exI [where x = d'] conjI allI)
    show "clean_local_storage s = (Return (), s\<lparr>disk := d'\<rparr>)"
      using d'(1) by (simp add: clean_local_storage_def)
  next
    fix f
    show "live d' f = (if ?fate f \<noteq> Keep then None else live (disk s) f)"
      using d'(2) [rule_format, of f] l [of f] by (cases "live (disk s) f") simp_all
  next
    fix sn f
    show "archived d' sn f =
        (if bin_path s = Some sn \<and> live (disk s) f \<noteq> None \<and> ?fate f = Archive
         then live (disk s) f else archived (disk s) sn f)"
      using d'(3) [rule_format, of sn f] l [of f] by simp
  next
    fix sn
    show "has_snapshot d' sn = has_snapshot (disk s) sn" using d'(4) by simp
  next
    show "meta_file d' = meta_file (disk s)" using d'(5) by simp
  qed
qed


subsection \<open>Writing the stories\<close>

lemma story_ok_getitem:
  assumes "story_ok st" and "f \<in> set story_required_fields"
  shows "\<exists>v. py_getitem st f = Return v"
proof -
  from assms have "field f st \<noteq> None" by (auto simp: story_ok_def list_all_iff)
  then show ?thesis by (auto simp: field_getitem)
qed

lemma story_ok_updated_at:
  assumes "story_ok st"
  shows "\<exists>t. py_getitem st ''updated_at'' = Return (JStr t)"
proof -
  from assms obtain t where "str_field ''updated_at'' st = Some t" by (auto simp: story_ok_def)
  then show ?thesis by (auto simp: field_getitem str_field_field)
qed

lemma save_story_views:
  assumes "story_ok st" and "meta_object s = Some m" and "mo_stories m \<noteq> None"
  shows "\<exists>item d' m'. save_story e st s = (Return item, s\<lparr>disk := d', meta_object := Some m'\<rparr>)
           \<and> mo_stories m' \<noteq> None
           \<and> (\<forall>f. live d' f = (if f = anchor_of st then Some (content_of st) else live (disk s) f))
           \<and> (\<forall>sn f. archived d' sn f = archived (disk s) sn f)
           \<and> (\<forall>sn. has_snapshot d' sn = has_snapshot (disk s) sn)
           \<and> meta_file d' = meta_file (disk s)"
proof -
  note ok = story_ok_fields [OF assms(1)]
  from write_www_views [OF ok(4)] obtain d' where d':
    "write_www (anchor_of st) (Return (JStr (content_of st))) (disk s) = (Return (), d')"
    "\<forall>f. live d' f = (if f = anchor_of st then Some (content_of st) else live (disk s) f)"
    "\<forall>sn f. archived d' sn f = archived (disk s) sn f"
    "\<forall>sn. has_snapshot d' sn = has_snapshot (disk s) sn"
    "meta_file d' = meta_file (disk s)" by blast
  have "\<exists>h. py_getitem st ''hash'' = Return h" "\<exists>u. py_getitem st ''canonical_url'' = Return u"
    by (rule story_ok_getitem [OF assms(1)], simp add: story_required_fields_def)+
  then obtain h u where hu:
    "py_getitem st ''hash'' = Return h" "py_getitem st ''canonical_url'' = Return u"
    by blast
  from story_ok_updated_at [OF assms(1)] obtain t where t:
    "py_getitem st ''updated_at'' = Return (JStr t)" by blast
  from assms(3) obtain sm where sm: "mo_stories m = Some sm" by auto
  let ?entry = "JObj [(''anchor'', JStr (anchor_of st)), (''hash'', h),
                      (''canonical_url'', u), (''updated_at'', JStr t)]"
  let ?m' = "m\<lparr>mo_stories := Some (dict_put (JStr (anchor_of st)) ?entry sm)\<rparr>"
  have "\<exists>item. save_story e st s = (Return item, s\<lparr>disk := d', meta_object := Some ?m'\<rparr>)"
    using ok(2,3) d'(1) hu t sm assms(2)
    by (simp add: save_story_def format_def story_entry_def record_story_def dict_set_def
                  create_sitemap_item_def)
  then obtain item where
    "save_story e st s = (Return item, s\<lparr>disk := d', meta_object := Some ?m'\<rparr>)" by blast
  with d'(2-5) show ?thesis
    by (intro exI [where x = item] exI [where x = d'] exI [where x = ?m']) simp
qed

lemma save_stories_views:
  assumes "list_all story_ok sts" and "distinct (map anchor_of sts)"
      and "meta_object s = Some m" and "mo_stories m \<noteq> None"
  shows "\<exists>items' d' m'. save_stories e sts items s
                          = (Return items', s\<lparr>disk := d', meta_object := Some m'\<rparr>)
           \<and> (\<forall>f. live d' f = (case written sts f of Some c \<Rightarrow> Some c | None \<Rightarrow> live (disk s) f))
           \<and> (\<forall>sn f. archived d' sn f = archived (disk s) sn f)
           \<and> (\<forall>sn. has_snapshot d' sn = has_snapshot (disk s) sn)
           \<and> meta_file d' = meta_file (disk s)"
  using assms
proof (induction sts arbitrary: s m items)
  case Nil
  show ?case
    by (intro exI [where x = items] exI [where x = "disk s"] exI [where x = m])
       (simp add: Nil.prems(3) written_def)
next
  case (Cons st sts)
  from Cons.prems(1) have ok: "story_ok st" "list_all story_ok sts" by simp_all
  from save_story_views [OF ok(1) Cons.prems(3,4)] obtain item d1 m1 where s1:
    "save_story e st s = (Return item, s\<lparr>disk := d1, meta_object := Some m1\<rparr>)"
    "mo_stories m1 \<noteq> None"
    "\<forall>f. live d1 f = (if f = anchor_of st then Some (content_of st) else live (disk s) f)"
    "\<forall>sn f. archived d1 sn f = archived (disk s) sn f"
    "\<forall>sn. has_snapshot d1 sn = has_snapshot (disk s) sn"
    "meta_file d1 = meta_file (disk s)" by blast
  let ?s1 = "s\<lparr>disk := d1, meta_object := Some m1\<rparr>"
  have p: "distinct (map anchor_of sts)" "meta_object ?s1 = Some m1"
    using Cons.prems(2) by simp_all
  from Cons.IH [OF ok(2) p s1(2), of "items @ item"] obtain items' d' m' where s':
    "save_stories e sts (items @ item) ?s1 = (Return items', ?s1\<lparr>disk := d', meta_object := Some m'\<rparr>)"
    "\<forall>f. live d' f = (case written sts f of Some c \<Rightarrow> Some c | None \<Rightarrow> live (disk ?s1) f)"
    "\<forall>sn f. archived d' sn f = archived (disk ?s1) sn f"
    "\<forall>sn. has_snapshot d' sn = has_snapshot (disk ?s1) sn"
    "meta_file d' = meta_file (disk ?s1)" by blast
  have fresh: "written sts (anchor_of st) = None"
    using Cons.prems(2) by (auto simp: written_def map_of_eq_None_iff image_iff)
  show ?case
  proof (intro exI [where x = items'] exI [where x = d'] exI [where x = m'] conjI allI)
    show "save_stories e (st # sts) items s = (Return items', s\<lparr>disk := d', meta_object := Some m'\<rparr>)"
      using s1(1) s'(1) by simp
  next
    fix f
    show "live d' f = (case written (st # sts) f of Some c \<Rightarrow> Some c | None \<Rightarrow> live (disk s) f)"
      using s'(2) s1(3) fresh by (auto simp: written_def split: option.splits)
  next
    fix sn f
    show "archived d' sn f = archived (disk s) sn f" using s'(3) s1(4) by simp
  next
    fix sn
    show "has_snapshot d' sn = has_snapshot (disk s) sn" using s'(4) s1(5) by simp
  next
    show "meta_file d' = meta_file (disk s)" using s'(5) s1(6) by simp
  qed
qed

lemma written_member:
  "st \<in> set sts \<Longrightarrow> distinct (map anchor_of sts) \<Longrightarrow> written sts (anchor_of st) = Some (content_of st)"
  by (induction sts) (auto simp: written_def image_iff)

lemma written_absent:
  "a \<notin> set (map anchor_of sts) \<Longrightarrow> written sts a = None"
  by (auto simp: written_def map_of_eq_None_iff image_iff)


subsection \<open>Validation of a well-typed document\<close>

lemma doc_ok_fields:
  assumes "doc_ok doc" and "f \<in> set theme_required_fields"
  shows "\<exists>v. py_getitem doc f = Return v"
proof -
  from assms have "field f doc \<noteq> None" by (auto simp: doc_ok_def list_all_iff)
  then show ?thesis by (auto simp: field_getitem)
qed

lemma doc_ok_stories:
  assumes "doc_ok doc"
  shows "py_getitem doc ''stories'' = Return (JArr (stories_of doc))"
proof -
  from assms obtain v where v: "field ''stories'' doc = Some v"
    by (auto simp: doc_ok_def split: option.splits)
  with assms obtain sts where "v = JArr sts" by (cases v) (simp_all add: doc_ok_def)
  with v show ?thesis by (simp add: stories_of_def field_getitem)
qed

lemma validate_document_ok:
  assumes "doc_ok doc"
  shows "validate_document doc d = (Return True, store_all (stories_of doc) d)"
proof -
  from assms have th: "has_fields theme_required_fields doc = Return True"
    by (simp add: doc_ok_def has_fields_present)
  from doc_ok_stories [OF assms] have "truthy doc" by (cases doc) (auto split: option.splits)
  moreover from assms have "list_all story_ok (stories_of doc)" by (simp add: doc_ok_def)
  then have "validate_stories (stories_of doc) d = (Return True, store_all (stories_of doc) d)"
    by (rule validate_stories_ok)
  ultimately show ?thesis
    using th doc_ok_stories [OF assms]
    by (cases "stories_of doc") (simp_all add: validate_document_def)
qed

lemma new_meta_ok:
  assumes "doc_ok doc"
  shows "\<exists>m. new_meta e now doc = Return m \<and> mo_checksum m = checksum_of e doc"
proof -
  have "\<exists>v. py_getitem doc ''title'' = Return v" "\<exists>v. py_getitem doc ''entity'' = Return v"
    "\<exists>v. py_getitem doc ''homepage_url'' = Return v"
    by (rule doc_ok_fields [OF assms], simp add: theme_required_fields_def)+
  then show ?thesis by (auto simp: new_meta_def checksum_of_def)
qed

lemma validate_api_response_ok:
  assumes "code r = 200" and "json_load e r = Return doc" and "doc_ok doc"
  shows "\<exists>m. validate_api_response e now s (Some r)
               = (Return True, s\<lparr>remote_data := Some doc,
                                  story_dictonary := store_all (stories_of doc) (story_dictonary s),
                                  meta_object := Some m\<rparr>)
             \<and> mo_checksum m = checksum_of e doc"
proof -
  from new_meta_ok [OF assms(3)] obtain m where
    "new_meta e now doc = Return m" "mo_checksum m = checksum_of e doc" by blast
  with assms show ?thesis
    by (intro exI [where x = m]) (simp add: validate_api_response_def validate_document_ok)
qed

subsection \<open>The steps of a changed cycle\<close>

lemma update_detected_meta_ok:
  assumes "meta_ok (meta_file_content s)" and "meta_object s = Some m"
  shows "update_detected s
           = Return (field ''checksum'' (meta_file_content s) \<noteq> Some (JStr (mo_checksum m)))"
proof (cases "meta_file_content s")
  case (JObj kvs)
  with assms(2) show ?thesis
    by (cases "map_of kvs ''checksum''") (auto simp: update_detected_def field_def)
qed (use assms in \<open>simp_all add: meta_ok_def update_detected_def field_def\<close>)

lemma check_dir_views:
  assumes "plain_name snap"
  shows "\<exists>d'. check_dir snap d = (Return True, d')
           \<and> has_snapshot d' snap
           \<and> (\<forall>f. live d' f = live d f)
           \<and> (\<forall>sn f. archived d' sn f = archived d sn f)
           \<and> meta_file d' = meta_file d"
proof (cases "map_of (bin_root d) snap")
  case None
  with assms show ?thesis
    by (intro exI [where x = "d\<lparr>bin_root := AList.update snap [] (bin_root d)\<rparr>"])
       (simp add: check_dir_def has_snapshot_def live_def archived_def update_conv')
next
  case (Some files)
  then show ?thesis
    by (intro exI [where x = d]) (simp add: check_dir_def has_snapshot_def)
qed

lemma create_snapshot_views:
  assumes "meta_ok (meta_file_content s)"
      and "field ''checksum'' (meta_file_content s) = None \<longrightarrow> bin_ok s"
  shows "\<exists>d'. create_snapshot s
               = (Return (), s\<lparr>bin_path := active_snapshot (meta_file_content s) (bin_path s),
                                disk := d'\<rparr>)
           \<and> bin_ok (s\<lparr>bin_path := active_snapshot (meta_file_content s) (bin_path s), disk := d'\<rparr>)
           \<and> (\<forall>f. live d' f = live (disk s) f)
           \<and> (\<forall>sn f. archived d' sn f = archived (disk s) sn f)
           \<and> meta_file d' = meta_file (disk s)"
proof (cases "field ''checksum'' (meta_file_content s)")
  case None
  then have a: "active_snapshot (meta_file_content s) (bin_path s) = bin_path s"
    by (simp add: active_snapshot_def str_field_def)
  from None assms(1) have "create_snapshot s = (Return (), s)"
    by (cases "meta_file_content s") (auto simp: create_snapshot_def field_def meta_ok_def)
  with a assms(2) None show ?thesis by (intro exI [where x = "disk s"]) simp
next
  case (Some c)
  then obtain kvs where m: "meta_file_content s = JObj kvs" "map_of kvs ''checksum'' = Some c"
    by (cases "meta_file_content s") (auto simp: field_def)
  with assms(1) obtain snap where c: "c = JStr snap" "plain_name snap"
    by (cases c) (simp_all add: meta_ok_def)
  from Some c have a: "active_snapshot (meta_file_content s) (bin_path s) = Some snap"
    by (simp add: active_snapshot_def str_field_def)
  from check_dir_views [OF c(2)] obtain d' where d':
    "check_dir snap (disk s) = (Return True, d')" "has_snapshot d' snap"
    "\<forall>f. live d' f = live (disk s) f" "\<forall>sn f. archived d' sn f = archived (disk s) sn f"
    "meta_file d' = meta_file (disk s)" by blast
  from m have "kvs \<noteq> []" by auto
  with m c d'(1) have "create_snapshot s = (Return (), s\<lparr>bin_path := Some snap, disk := d'\<rparr>)"
    by (simp add: create_snapshot_def)
  with a d'(2-5) show ?thesis by (intro exI [where x = d']) (simp add: bin_ok_def)
qed

lemma build_sitemap_views:
  "\<exists>d'. build_sitemap items s = (Return (), s\<lparr>disk := d'\<rparr>)
       \<and> (\<forall>f. f \<noteq> ''sitemap.xml'' \<longrightarrow> live d' f = live (disk s) f)
       \<and> (\<forall>sn f. archived d' sn f = archived (disk s) sn f)
       \<and> (\<forall>sn. has_snapshot d' sn = has_snapshot (disk s) sn)
       \<and> meta_file d' = meta_file (disk s)"
proof -
  have "plain_name ''sitemap.xml''" by (simp add: plain_name_def)
  from write_www_views [OF this, of "sitemap_head @ items @ sitemap_foot" "disk s"]
  show ?thesis by (auto simp: build_sitemap_def)
qed

lemma save_error_page_views:
  assumes "remote_data s = Some doc" and "doc_ok doc"
  shows "\<exists>d'. save_error_page s = (Return True, s\<lparr>disk := d'\<rparr>)
           \<and> (\<forall>f. f \<noteq> ''error.html'' \<longrightarrow> live d' f = live (disk s) f)
           \<and> (\<forall>sn f. archived d' sn f = archived (disk s) sn f)
           \<and> (\<forall>sn. has_snapshot d' sn = has_snapshot (disk s) sn)
           \<and> meta_file d' = meta_file (disk s)"
proof -
  from assms(2) obtain p where p: "str_field ''error_page'' doc = Some p"
    by (auto simp: doc_ok_def)
  then have f: "field ''error_page'' doc = Some (JStr p)" by (rule str_field_field)
  have "plain_name ''error.html''" by (simp add: plain_name_def)
  from write_www_views [OF this, of p "disk s"] obtain d' where d':
    "write_www ''error.html'' (Return (JStr p)) (disk s) = (Return (), d')"
    "\<forall>f. live d' f = (if f = ''error.html'' then Some p else live (disk s) f)"
    "\<forall>sn f. archived d' sn f = archived (disk s) sn f"
    "\<forall>sn. has_snapshot d' sn = has_snapshot (disk s) sn"
    "meta_file d' = meta_file (disk s)" by blast
  from assms(1) f d'(1) have "save_error_page s = (Return True, s\<lparr>disk := d'\<rparr>)"
    by (simp add: save_error_page_def field_truthy field_in field_getitem)
  with d'(2-5) show ?thesis by (intro exI [where x = d']) simp
qed

lemma save_meta_views:
  assumes "meta_object s = Some m" and "bin_ok s"
  shows "\<exists>d'. save_meta e s = (Return True, s\<lparr>disk := d'\<rparr>)
           \<and> (\<forall>f. live d' f = live (disk s) f)
           \<and> (\<forall>sn f. f \<noteq> ''meta.json'' \<longrightarrow> archived d' sn f = archived (disk s) sn f)
           \<and> meta_file d' = Some (json_dump_meta e m)"
proof (cases "bin_path s")
  case None
  with assms(1) show ?thesis
    by (intro exI [where x = "(disk s)\<lparr>meta_file := Some (json_dump_meta e m)\<rparr>"])
       (simp add: save_meta_def live_def archived_def)
next
  case (Some snap)
  with assms(2) obtain files where files: "map_of (bin_root (disk s)) snap = Some files"
    by (auto simp: bin_ok_def has_snapshot_def)
  show ?thesis
  proof (cases "meta_file (disk s)")
    case None
    with Some assms(1) show ?thesis
      by (intro exI [where x = "(disk s)\<lparr>meta_file := Some (json_dump_meta e m)\<rparr>"])
         (simp add: save_meta_def live_def archived_def)
  next
    case old: (Some prev)
    let ?d = "(disk s)\<lparr>meta_file := Some (json_dump_meta e m),
                bin_root := AList.update snap (AList.update ''meta.json'' prev files) (bin_root (disk s))\<rparr>"
    from Some old files assms(1) have "save_meta e s = (Return True, s\<lparr>disk := ?d\<rparr>)"
      by (simp add: save_meta_def rename_meta_to_bin_def)
    moreover have "\<forall>sn f. f \<noteq> ''meta.json'' \<longrightarrow> archived ?d sn f = archived (disk s) sn f"
      using files by (simp add: archived_def update_conv')
    ultimately show ?thesis
      by (intro exI [where x = ?d]) (simp add: live_def)
  qed
qed


lemma sync_stories_views:
  assumes "remote_data s = Some doc" and "doc_ok doc" and "meta_object s = Some m0"
      and "meta_ok (meta_file_content s)" and "dict_ok (story_dictonary s)" and "bin_ok s"
  shows "\<exists>d' m'. sync_stories e s = (Return (), s\<lparr>disk := d', meta_object := Some m'\<rparr>)
           \<and> (\<forall>f. f \<noteq> ''sitemap.xml'' \<longrightarrow> live d' f =
                 (case written (stories_of doc) f of
                    Some c \<Rightarrow> Some c
                  | None \<Rightarrow>
                      if fate_of (meta_file_content s) (story_dictonary s) (bin_path s) f \<noteq> Keep
                      then None else live (disk s) f))
           \<and> (\<forall>sn f. archived d' sn f =
                 (if bin_path s = Some sn \<and> live (disk s) f \<noteq> None
                     \<and> fate_of (meta_file_content s) (story_dictonary s) (bin_path s) f = Archive
                  then live (disk s) f else archived (disk s) sn f))
           \<and> (\<forall>sn. has_snapshot d' sn = has_snapshot (disk s) sn)
           \<and> meta_file d' = meta_file (disk s)"
proof -
  let ?fate = "fate_of (meta_file_content s) (story_dictonary s) (bin_path s)"
  from clean_local_storage_views [OF assms(4,5,6)] obtain d1 where d1:
    "clean_local_storage s = (Return (), s\<lparr>disk := d1\<rparr>)"
    "\<forall>f. live d1 f = (if ?fate f \<noteq> Keep then None else live (disk s) f)"
    "\<forall>sn f. archived d1 sn f =
        (if bin_path s = Some sn \<and> live (disk s) f \<noteq> None \<and> ?fate f = Archive
         then live (disk s) f else archived (disk s) sn f)"
    "\<forall>sn. has_snapshot d1 sn = has_snapshot (disk s) sn"
    "meta_file d1 = meta_file (disk s)" by blast
  let ?s1 = "s\<lparr>disk := d1, meta_object := Some (m0\<lparr>mo_stories := Some []\<rparr>)\<rparr>"
  from assms(2) have ok: "list_all story_ok (stories_of doc)" "distinct (map anchor_of (stories_of doc))"
    by (simp_all add: doc_ok_def)
  have m1: "meta_object ?s1 = Some (m0\<lparr>mo_stories := Some []\<rparr>)"
    "mo_stories (m0\<lparr>mo_stories := Some []\<rparr>) \<noteq> None" by simp_all
  from save_stories_views [OF ok m1, of e "[]"] obtain items d2 m2 where d2:
    "save_stories e (stories_of doc) [] ?s1 = (Return items, ?s1\<lparr>disk := d2, meta_object := Some m2\<rparr>)"
    "\<forall>f. live d2 f = (case written (stories_of doc) f of Some c \<Rightarrow> Some c | None \<Rightarrow> live (disk ?s1) f)"
    "\<forall>sn f. archived d2 sn f = archived (disk ?s1) sn f"
    "\<forall>sn. has_snapshot d2 sn = has_snapshot (disk ?s1) sn"
    "meta_file d2 = meta_file (disk ?s1)" by blast
  let ?s2 = "s\<lparr>disk := d2, meta_object := Some m2\<rparr>"
  from build_sitemap_views [of items ?s2] obtain d3 where d3:
    "build_sitemap items ?s2 = (Return (), ?s2\<lparr>disk := d3\<rparr>)"
    "\<forall>f. f \<noteq> ''sitemap.xml'' \<longrightarrow> live d3 f = live (disk ?s2) f"
    "\<forall>sn f. archived d3 sn f = archived (disk ?s2) sn f"
    "\<forall>sn. has_snapshot d3 sn = has_snapshot (disk ?s2) sn"
    "meta_file d3 = meta_file (disk ?s2)" by blast
  have run: "sync_stories e s = (Return (), s\<lparr>disk := d3, meta_object := Some m2\<rparr>)"
    using d1(1) assms(1,3) doc_ok_stories [OF assms(2)] d2(1) d3(1)
    by (simp add: sync_stories_def)
  show ?thesis
  proof (intro exI [where x = d3] exI [where x = m2] conjI allI impI)
    show "sync_stories e s = (Return (), s\<lparr>disk := d3, meta_object := Some m2\<rparr>)" by (rule run)
  next
    fix f assume "f \<noteq> ''sitemap.xml''"
    then show "live d3 f =
        (case written (stories_of doc) f of
           Some c \<Rightarrow> Some c
         | None \<Rightarrow> if ?fate f \<noteq> Keep then None else live (disk s) f)"
      using d3(2) d2(2) d1(2) by (simp split: option.splits)
  next
    fix sn f
    show "archived d3 sn f =
        (if bin_path s = Some sn \<and> live (disk s) f \<noteq> None \<and> ?fate f = Archive
         then live (disk s) f else archived (disk s) sn f)"
      using d3(3) d2(3) d1(3) by simp
  next
    fix sn
    show "has_snapshot d3 sn = has_snapshot (disk s) sn" using d3(4) d2(4) d1(4) by simp
  next
    show "meta_file d3 = meta_file (disk s)" using d3(5) d2(5) d1(5) by simp
  qed
qed

text \<open>
  A changed cycle on a well-typed document, from a state as cycles leave it: it returns
  normally, and the live files and the snapshots afterwards are those before, changed as
  reconciliation decides and overwritten by the stories.
\<close>

lemma sync_changed_views:
  assumes fetched: "net w = Response r" "code r = 200" "json_load e r = Return doc"
      and doc: "doc_ok doc"
      and state: "meta_ok (meta_file_content s)" "dict_ok (story_dictonary s)"
                 "field ''checksum'' (meta_file_content s) = None \<longrightarrow> bin_ok s"
      and changed: "field ''checksum'' (meta_file_content s) \<noteq> Some (JStr (checksum_of e doc))"
  shows "fst (sync e w s) = Return False"
    and "story_dictonary (snd (sync e w s)) = store_all (stories_of doc) (story_dictonary s)"
    and "\<And>f. f \<noteq> ''sitemap.xml'' \<Longrightarrow> f \<noteq> ''error.html'' \<Longrightarrow>
           live (disk (snd (sync e w s))) f =
             (case written (stories_of doc) f of
                Some c \<Rightarrow> Some c
              | None \<Rightarrow>
                  if fate_of (meta_file_content s) (store_all (stories_of doc) (story_dictonary s))
                       (active_snapshot (meta_file_content s) (bin_path s)) f \<noteq> Keep
                  then None else live (disk s) f)"
    and "\<And>sn f. f \<noteq> ''meta.json'' \<Longrightarrow>
           archived (disk (snd (sync e w s))) sn f =
             (if active_snapshot (meta_file_content s) (bin_path s) = Some sn
                 \<and> live (disk s) f \<noteq> None
                 \<and> fate_of (meta_file_content s) (store_all (stories_of doc) (story_dictonary s))
                      (active_snapshot (meta_file_content s) (bin_path s)) f = Archive
              then live (disk s) f else archived (disk s) sn f)"
proof -
  let ?dict = "store_all (stories_of doc) (story_dictonary s)"
  let ?bp = "active_snapshot (meta_file_content s) (bin_path s)"
  let ?fate = "fate_of (meta_file_content s) ?dict ?bp"
  have f: "fetch_content w = Return (Some r)" using fetched(1) by (simp add: fetch_content_def)
  from validate_api_response_ok [OF fetched(2,3) doc, of "clock w" s] obtain m where v:
    "validate_api_response e (clock w) s (Some r)
       = (Return True, s\<lparr>remote_data := Some doc, story_dictonary := ?dict, meta_object := Some m\<rparr>)"
    "mo_checksum m = checksum_of e doc" by blast
  let ?s1 = "s\<lparr>remote_data := Some doc, story_dictonary := ?dict, meta_object := Some m\<rparr>"
  have u: "update_detected ?s1 = Return True"
    using update_detected_meta_ok [of ?s1 m] state(1) v(2) changed by simp
  have b1: "meta_ok (meta_file_content ?s1)"
    "field ''checksum'' (meta_file_content ?s1) = None \<longrightarrow> bin_ok ?s1"
    using state(1,3) by (simp_all add: bin_ok_def split: option.splits)
  from create_snapshot_views [OF b1] obtain d2 where c:
    "create_snapshot ?s1 = (Return (), ?s1\<lparr>bin_path := ?bp, disk := d2\<rparr>)"
    "bin_ok (?s1\<lparr>bin_path := ?bp, disk := d2\<rparr>)"
    "\<forall>f. live d2 f = live (disk s) f"
    "\<forall>sn f. archived d2 sn f = archived (disk s) sn f"
    "meta_file d2 = meta_file (disk s)" by auto
  let ?s2 = "?s1\<lparr>bin_path := ?bp, disk := d2\<rparr>"
  have dk: "dict_ok ?dict"
    using doc state(2) by (simp add: doc_ok_def store_all_dict_ok)
  have p2: "remote_data ?s2 = Some doc" "meta_object ?s2 = Some m"
    "meta_ok (meta_file_content ?s2)" "dict_ok (story_dictonary ?s2)"
    using state(1) dk by simp_all
  from sync_stories_views [OF p2(1) doc p2(2,3,4) c(2), of e] obtain d3 m3 where st:
    "sync_stories e ?s2 = (Return (), ?s2\<lparr>disk := d3, meta_object := Some m3\<rparr>)"
    "\<forall>f. f \<noteq> ''sitemap.xml'' \<longrightarrow> live d3 f =
        (case written (stories_of doc) f of
           Some c \<Rightarrow> Some c
         | None \<Rightarrow> if fate_of (meta_file_content ?s2) (story_dictonary ?s2) (bin_path ?s2) f \<noteq> Keep
                   then None else live (disk ?s2) f)"
    "\<forall>sn f. archived d3 sn f =
        (if bin_path ?s2 = Some sn \<and> live (disk ?s2) f \<noteq> None
            \<and> fate_of (meta_file_content ?s2) (story_dictonary ?s2) (bin_path ?s2) f = Archive
         then live (disk ?s2) f else archived (disk ?s2) sn f)"
    "\<forall>sn. has_snapshot d3 sn = has_snapshot (disk ?s2) sn"
    "meta_file d3 = meta_file (disk ?s2)" by blast
  let ?s3 = "?s2\<lparr>disk := d3, meta_object := Some m3\<rparr>"
  have p3: "remote_data ?s3 = Some doc" by simp
  from save_error_page_views [OF p3 doc] obtain d4 where ep:
    "save_error_page ?s3 = (Return True, ?s3\<lparr>disk := d4\<rparr>)"
    "\<forall>f. f \<noteq> ''error.html'' \<longrightarrow> live d4 f = live (disk ?s3) f"
    "\<forall>sn f. archived d4 sn f = archived (disk ?s3) sn f"
    "\<forall>sn. has_snapshot d4 sn = has_snapshot (disk ?s3) sn"
    "meta_file d4 = meta_file (disk ?s3)" by blast
  let ?s4 = "?s3\<lparr>disk := d4\<rparr>"
  have p4: "meta_object ?s4 = Some m3" by simp
  have b4: "bin_ok ?s4"
    using c(2) st(4) ep(4) by (simp add: bin_ok_def split: option.splits)
  from save_meta_views [OF p4 b4, of e] obtain d5 where sm:
    "save_meta e ?s4 = (Return True, ?s4\<lparr>disk := d5\<rparr>)"
    "\<forall>f. live d5 f = live (disk ?s4) f"
    "\<forall>sn f. f \<noteq> ''meta.json'' \<longrightarrow> archived d5 sn f = archived (disk ?s4) sn f" by blast
  let ?s5 = "?s4\<lparr>disk := d5\<rparr>"
  have run: "sync e w s = (Return False, ?s5)"
    using f v(1) u c(1) st(1) ep(1) sm(1) by (simp add: sync_def)
  show "fst (sync e w s) = Return False" by (simp add: run)
  show "story_dictonary (snd (sync e w s)) = ?dict" by (simp add: run)
  show "live (disk (snd (sync e w s))) f =
        (case written (stories_of doc) f of
           Some c \<Rightarrow> Some c
         | None \<Rightarrow> if ?fate f \<noteq> Keep then None else live (disk s) f)"
    if "f \<noteq> ''sitemap.xml''" "f \<noteq> ''error.html''" for f
    using that sm(2) ep(2) st(2) c(3) by (simp add: run split: option.splits cong del: if_weak_cong)
  show "archived (disk (snd (sync e w s))) sn f =
        (if ?bp = Some sn \<and> live (disk s) f \<noteq> None \<and> ?fate f = Archive
         then live (disk s) f else archived (disk s) sn f)"
    if "f \<noteq> ''meta.json''" for sn f
    using that sm(3) ep(3) st(3) c(3,4) by (simp add: run cong del: if_weak_cong)
qed


section \<open>The sample, evaluated\<close>

lemma after_v1_state:
  "story_dictonary after_v1 = [(JStr ''index'', story_index_v1), (JStr ''about'', story_about_v1)]"
  "bin_path after_v1 = None"
  "bin_root (disk after_v1) = []"
  "meta_file (disk after_v1) = Some ''meta sha256-of-v1''"
  "map_of (www (disk after_v1)) ''index'' = Some ''<h1>Home</h1>''"
  "map_of (www (disk after_v1)) ''about'' = Some ''<p>About us</p>''"
  "map_of (www (disk after_v1)) ''error.html'' = Some ''<h1>Not found</h1>''"
  by (simp_all add: after_v1_def sample_defs engine_defs)

lemma before_second_cycle: "cycle sample_env w after_v1 = sync sample_env w before_second"
  by (simp add: cycle_def read_meta_def after_v1_state before_second_def sample_env_def sample_loads_def)

lemma sample_ok:
  "doc_ok doc_v2" "doc_ok doc_v3" "meta_ok meta_v1" "dict_ok (story_dictonary after_v1)"
  by (simp_all add: after_v1_state doc_ok_def story_ok_def meta_ok_def dict_ok_def has_hash_def
        field_def str_field_def stories_of_def anchor_of_def plain_name_def
        theme_required_fields_def story_required_fields_def
        doc_v2_def doc_v3_def site_def story_index_v1_def story_about_v1_def story_index_v2_def
        story_index_edited_def meta_v1_def)

lemma sample_checksums:
  "checksum_of sample_env doc_v2 = ''sha256-of-v2''"
  "checksum_of sample_env doc_v3 = ''sha256-of-v3''"
  "field ''checksum'' meta_v1 = Some (JStr ''sha256-of-v1'')"
  by (simp_all add: checksum_of_def sample_defs field_def)

lemma sample_tracked:
  "map_of (story_set meta_v1) ''index''
     = Some (JObj [(''anchor'', JStr ''index''), (''hash'', JStr ''a''),
                   (''canonical_url'', JStr ''https://example.org/''),
                   (''updated_at'', JStr ''2025-01-01T10:00:00.000000Z'')])"
  "map_of (story_set meta_v1) ''about''
     = Some (JObj [(''anchor'', JStr ''about''), (''hash'', JStr ''k''),
                   (''canonical_url'', JStr ''https://example.org/about''),
                   (''updated_at'', JStr ''2025-01-01T11:00:00.000000Z'')])"
  "map_of (story_set meta_v1) ''error.html'' = None"
  by (simp_all add: story_set_def field_def meta_v1_def)

lemma sample_fetch:
  "net (remote txt now) = Response \<lparr>code = 200, body = Return txt\<rparr>"
  "code \<lparr>code = 200, body = Return txt\<rparr> = 200"
  "json_load sample_env \<lparr>code = 200, body = Return ''v2''\<rparr> = Return doc_v2"
  "json_load sample_env \<lparr>code = 200, body = Return ''v3''\<rparr> = Return doc_v3"
  by (simp_all add: remote_def json_load_def sample_env_def sample_loads_def)


section \<open>The mapping across cycles\<close>

text \<open>
  Nothing but validation assigns to \<^verbatim>\<open>story_dictonary\<close>, and validation only adds or
  replaces entries: a key of the mapping stays a key through every later cycle, and
  every story in the mapping has a hash.
\<close>

lemma clean_file_dict: "clean_file s f = (out, s') \<Longrightarrow> story_dictonary s' = story_dictonary s"
  by (auto simp: clean_file_def split: result.splits option.splits prod.splits if_splits)

lemma clean_files_dict: "clean_files fs s = (out, s') \<Longrightarrow> story_dictonary s' = story_dictonary s"
proof (induction fs arbitrary: s)
  case Nil
  then show ?case by simp
next
  case (Cons f fs)
  obtain o1 s1 where c: "clean_file s f = (o1, s1)" by (cases "clean_file s f")
  then have d: "story_dictonary s1 = story_dictonary s" by (rule clean_file_dict)
  show ?case
  proof (cases o1)
    case (Return u)
    with c Cons.prems have "clean_files fs s1 = (out, s')" by simp
    then have "story_dictonary s' = story_dictonary s1" by (rule Cons.IH)
    with d show ?thesis by simp
  next
    case (Raise x)
    with c Cons.prems d show ?thesis by simp
  qed
qed

lemma record_story_dict:
  "record_story a en s = (out, s') \<Longrightarrow> story_dictonary s' = story_dictonary s"
  by (auto simp: record_story_def split: option.splits result.splits)

lemma save_story_dict: "save_story e st s = (out, s') \<Longrightarrow> story_dictonary s' = story_dictonary s"
  by (auto simp: save_story_def split: result.splits prod.splits dest!: record_story_dict)

lemma save_stories_dict:
  "save_stories e sts items s = (out, s') \<Longrightarrow> story_dictonary s' = story_dictonary s"
proof (induction sts arbitrary: s items)
  case Nil
  then show ?case by simp
next
  case (Cons st sts)
  obtain o1 s1 where c: "save_story e st s = (o1, s1)" by (cases "save_story e st s")
  then have d: "story_dictonary s1 = story_dictonary s" by (rule save_story_dict)
  show ?case
  proof (cases o1)
    case (Return item)
    with c Cons.prems have "save_stories e sts (items @ item) s1 = (out, s')" by simp
    then have "story_dictonary s' = story_dictonary s1" by (rule Cons.IH)
    with d show ?thesis by simp
  next
    case (Raise x)
    with c Cons.prems d show ?thesis by simp
  qed
qed

lemma build_sitemap_dict:
  "build_sitemap items s = (out, s') \<Longrightarrow> story_dictonary s' = story_dictonary s"
  by (auto simp: build_sitemap_def split: prod.splits)

lemma sync_stories_dict: "sync_stories e s = (out, s') \<Longrightarrow> story_dictonary s' = story_dictonary s"
  by (auto simp: sync_stories_def clean_local_storage_def
           split: result.splits option.splits prod.splits
           dest!: clean_files_dict save_stories_dict build_sitemap_dict)

lemma save_error_page_dict:
  "save_error_page s = (out, s') \<Longrightarrow> story_dictonary s' = story_dictonary s"
  by (auto simp: save_error_page_def split: option.splits result.splits prod.splits if_splits)

lemma save_meta_dict: "save_meta e s = (out, s') \<Longrightarrow> story_dictonary s' = story_dictonary s"
  by (auto simp: save_meta_def split: option.splits result.splits prod.splits if_splits)

lemma create_snapshot_dict:
  "create_snapshot s = (out, s') \<Longrightarrow> story_dictonary s' = story_dictonary s"
  by (auto simp: create_snapshot_def split: option.splits result.splits prod.splits json.splits if_splits)

lemma after_validation_dict:
  assumes "sync e w s = (out, s')"
  shows "story_dictonary s' = story_dictonary s
         \<or> (\<exists>r. story_dictonary s' = story_dictonary (snd (validate_api_response e (clock w) s (Some r))))"
proof (cases "\<exists>r. fetch_content w = Return (Some r)")
  case False
  with assms show ?thesis by (auto simp: sync_def split: result.splits option.splits)
next
  case True
  then obtain r where Some: "fetch_content w = Return (Some r)" ..
  obtain o1 s1 where v: "validate_api_response e (clock w) s (Some r) = (o1, s1)"
    by (cases "validate_api_response e (clock w) s (Some r)")
  from assms Some v have "story_dictonary s' = story_dictonary s1"
    by (auto simp: sync_def split: result.splits prod.splits if_splits
             dest!: create_snapshot_dict sync_stories_dict save_error_page_dict save_meta_dict)
  with v show ?thesis by (intro disjI2 exI [where x = r]) simp
qed

lemma validate_document_keeps:
  "validate_document rd d = (out, d') \<Longrightarrow> dict_find k d \<noteq> None \<Longrightarrow> dict_find k d' \<noteq> None"
  by (auto simp: validate_document_def split: if_splits result.splits dest: validate_stories_keeps)

lemma validate_document_dict_ok:
  "validate_document rd d = (out, d') \<Longrightarrow> dict_ok d \<Longrightarrow> dict_ok d'"
  by (auto simp: validate_document_def split: if_splits result.splits dest: validate_stories_dict_ok)

lemma validate_api_response_dict:
  assumes "validate_api_response e now s resp = (out, s')"
  shows "story_dictonary s' = story_dictonary s
         \<or> (\<exists>rd o1. validate_document rd (story_dictonary s) = (o1, story_dictonary s'))"
  using assms
  by (auto simp: validate_api_response_def split: option.splits result.splits prod.splits if_splits)

lemma story_dictonary_never_shrinks:
  assumes "dict_find k (story_dictonary s) \<noteq> None"
  shows "dict_find k (story_dictonary (snd (cycle e w s))) \<noteq> None"
proof -
  have v: "dict_find k (story_dictonary (snd (validate_api_response e now s0 resp))) \<noteq> None"
    if "dict_find k (story_dictonary s0) \<noteq> None" for now s0 resp
    using validate_api_response_dict [OF prod.collapse [symmetric], of e now s0 resp] that
    by (auto dest: validate_document_keeps)
  have "dict_find k (story_dictonary (snd (sync e w s0))) \<noteq> None"
    if "dict_find k (story_dictonary s0) \<noteq> None" for s0
    using after_validation_dict [OF prod.collapse [symmetric], of e w s0] that v [OF that]
    by auto
  with assms show ?thesis
    by (simp add: cycle_def split: result.split)
qed

lemma dict_ok_cycle:
  assumes "dict_ok (story_dictonary s)"
  shows "dict_ok (story_dictonary (snd (cycle e w s)))"
proof -
  have v: "dict_ok (story_dictonary (snd (validate_api_response e now s0 resp)))"
    if "dict_ok (story_dictonary s0)" for now s0 resp
    using validate_api_response_dict [OF prod.collapse [symmetric], of e now s0 resp] that
    by (auto dest: validate_document_dict_ok)
  have "dict_ok (story_dictonary (snd (sync e w s0)))"
    if "dict_ok (story_dictonary s0)" for s0
    using after_validation_dict [OF prod.collapse [symmetric], of e w s0] that v [OF that]
    by auto
  with assms show ?thesis
    by (simp add: cycle_def split: result.split)
qed


section \<open>The active snapshot across cycles\<close>

text \<open>
  A cycle that returns leaves the engine with an active snapshot directory that exists,
  if it has one; and a fresh engine satisfies what the statements ask of the state.
\<close>

lemma clean_file_bin_ok: "clean_file s f = (out, s') \<Longrightarrow> bin_ok s \<Longrightarrow> bin_ok s'"
  by (auto simp: clean_file_def remove_www_def rename_www_to_bin_def bin_ok_def has_snapshot_def
                 update_conv'
           split: result.splits option.splits prod.splits if_splits)

lemma clean_files_bin_ok: "clean_files fs s = (out, s') \<Longrightarrow> bin_ok s \<Longrightarrow> bin_ok s'"
proof (induction fs arbitrary: s)
  case Nil
  then show ?case by simp
next
  case (Cons f fs)
  obtain o1 s1 where c: "clean_file s f = (o1, s1)" by (cases "clean_file s f")
  from c Cons.prems(2) have b: "bin_ok s1" by (rule clean_file_bin_ok)
  show ?case
  proof (cases o1)
    case (Return u)
    with c Cons.prems(1) have "clean_files fs s1 = (out, s')" by simp
    from this b show ?thesis by (rule Cons.IH)
  next
    case (Raise x)
    with c Cons.prems(1) b show ?thesis by simp
  qed
qed

lemma write_www_bin_ok:
  "write_www name x (disk s) = (out, d) \<Longrightarrow> bin_ok s \<Longrightarrow> bin_ok (s\<lparr>disk := d\<rparr>)"
  by (auto simp: write_www_def bin_ok_def has_snapshot_def
           split: result.splits option.splits json.splits if_splits)

lemma record_story_bin_ok: "record_story a en s = (out, s') \<Longrightarrow> bin_ok s \<Longrightarrow> bin_ok s'"
  by (auto simp: record_story_def bin_ok_def split: option.splits result.splits)

lemma save_story_bin_ok: "save_story e st s = (out, s') \<Longrightarrow> bin_ok s \<Longrightarrow> bin_ok s'"
  by (auto simp: save_story_def split: result.splits prod.splits
           dest!: write_www_bin_ok dest: record_story_bin_ok)

lemma save_stories_bin_ok:
  "save_stories e sts items s = (out, s') \<Longrightarrow> bin_ok s \<Longrightarrow> bin_ok s'"
proof (induction sts arbitrary: s items)
  case Nil
  then show ?case by simp
next
  case (Cons st sts)
  obtain o1 s1 where c: "save_story e st s = (o1, s1)" by (cases "save_story e st s")
  from c Cons.prems(2) have b: "bin_ok s1" by (rule save_story_bin_ok)
  show ?case
  proof (cases o1)
    case (Return item)
    with c Cons.prems(1) have "save_stories e sts (items @ item) s1 = (out, s')" by simp
    from this b show ?thesis by (rule Cons.IH)
  next
    case (Raise x)
    with c Cons.prems(1) b show ?thesis by simp
  qed
qed

lemma build_sitemap_bin_ok: "build_sitemap items s = (out, s') \<Longrightarrow> bin_ok s \<Longrightarrow> bin_ok s'"
  by (auto simp: build_sitemap_def split: prod.splits dest!: write_www_bin_ok)

lemma bin_ok_meta_object [simp]: "bin_ok (s\<lparr>meta_object := m\<rparr>) = bin_ok s"
  by (simp add: bin_ok_def split: option.split)

lemma sync_stories_bin_ok: "sync_stories e s = (out, s') \<Longrightarrow> bin_ok s \<Longrightarrow> bin_ok s'"
proof -
  assume run: "sync_stories e s = (out, s')" and b: "bin_ok s"
  obtain o1 s1 where c: "clean_local_storage s = (o1, s1)" by (cases "clean_local_storage s")
  then have b1: "bin_ok s1"
    using b by (auto simp: clean_local_storage_def dest: clean_files_bin_ok)
  from run c b1 show "bin_ok s'"
    by (auto simp: sync_stories_def split: result.splits option.splits prod.splits
             dest!: save_stories_bin_ok dest: build_sitemap_bin_ok)
qed

lemma save_error_page_bin_ok: "save_error_page s = (out, s') \<Longrightarrow> bin_ok s \<Longrightarrow> bin_ok s'"
  by (auto simp: save_error_page_def split: option.splits result.splits prod.splits if_splits
           dest!: write_www_bin_ok)

lemma save_meta_bin_ok: "save_meta e s = (out, s') \<Longrightarrow> bin_ok s \<Longrightarrow> bin_ok s'"
  by (auto simp: save_meta_def rename_meta_to_bin_def bin_ok_def has_snapshot_def update_conv'
           split: option.splits result.splits prod.splits if_splits)

lemma create_snapshot_bin_ok: "create_snapshot s = (Return u, s') \<Longrightarrow> bin_ok s \<Longrightarrow> bin_ok s'"
  by (auto simp: create_snapshot_def check_dir_def bin_ok_def has_snapshot_def update_conv'
           split: option.splits result.splits prod.splits json.splits if_splits)

lemma bin_ok_cycle:
  assumes "bin_ok s" and "cycle e w s = (Return b, s')"
  shows "bin_ok s'"
proof -
  from assms(2) obtain m where m: "read_meta e (disk s) = Return m"
    and run: "sync e w (s\<lparr>meta_file_content := m\<rparr>) = (Return b, s')"
    by (auto simp: cycle_def split: result.splits)
  let ?s0 = "s\<lparr>meta_file_content := m\<rparr>"
  have b0: "bin_ok ?s0" using assms(1) by (simp add: bin_ok_def split: option.splits)
  show ?thesis
  proof (cases "\<exists>r. fetch_content w = Return (Some r)")
    case False
    with run b0 show ?thesis by (auto simp: sync_def split: result.splits option.splits)
  next
    case True
    then obtain r where Some: "fetch_content w = Return (Some r)" ..
    obtain o1 s1 where v: "validate_api_response e (clock w) ?s0 (Some r) = (o1, s1)"
      by (cases "validate_api_response e (clock w) ?s0 (Some r)")
    with validate_api_response_frame [of e "clock w" ?s0 "Some r"] b0
    have b1: "bin_ok s1" by (simp add: bin_ok_def split: option.splits)
    from run Some v b1 show ?thesis
      by (auto simp: sync_def split: result.splits prod.splits if_splits
               dest!: create_snapshot_bin_ok dest: sync_stories_bin_ok save_error_page_bin_ok
                      save_meta_bin_ok)
  qed
qed

lemma fresh_ok:
  "meta_ok (meta_file_content (fresh d))" "dict_ok (story_dictonary (fresh d))" "bin_ok (fresh d)"
  by (simp_all add: fresh_def meta_ok_def dict_ok_def bin_ok_def)

section \<open>Reconciliation and the writing of stories\<close>

text \<open>
  The statements below are about documents typed as the data model types them
  (\<open>doc_ok\<close>), previous metadata as \<^verbatim>\<open>save_meta\<close> writes it (\<open>meta_ok\<close>), and an
  engine as earlier cycles leave it (\<open>dict_ok\<close>, \<open>bin_ok\<close>: a fresh engine has both
  and a cycle that returns keeps both, see \<open>fresh_ok\<close>, \<open>dict_ok_cycle\<close> and
  \<open>bin_ok_cycle\<close>). The content directory
  also holds \<^verbatim>\<open>sitemap.xml\<close> and \<^verbatim>\<open>error.html\<close>, and a snapshot holds \<^verbatim>\<open>meta.json\<close>;
  the engine writes these itself, so a statement about the file of an anchor is about
  an anchor that is none of these names.
\<close>

text \<open>
  C5. A file of the content directory whose name is not a key of the previous
  metadata's story set is removed by reconciliation: \<^verbatim>\<open>clean_local_storage\<close> returns,
  the file is gone from the content directory, and no snapshot has gained a file of
  that name.
\<close>

theorem clean_local_storage_deletes_untracked:
  assumes state: "meta_ok (meta_file_content s)" "dict_ok (story_dictonary s)" "bin_ok s"
      and present: "live (disk s) name \<noteq> None"
      and untracked: "map_of (story_set (meta_file_content s)) name = None"
  shows "fst (clean_local_storage s) = Return ()
         \<and> live (disk (snd (clean_local_storage s))) name = None
         \<and> (\<forall>snap. archived (disk (snd (clean_local_storage s))) snap name
                      = archived (disk s) snap name)"
proof -
  from untracked
  have del: "fate_of (meta_file_content s) (story_dictonary s) (bin_path s) name = Delete"
    by (simp add: fate_of_def)
  from clean_local_storage_views [OF state] obtain d' where d':
    "clean_local_storage s = (Return (), s\<lparr>disk := d'\<rparr>)"
    "\<forall>f. live d' f =
        (if fate_of (meta_file_content s) (story_dictonary s) (bin_path s) f \<noteq> Keep
         then None else live (disk s) f)"
    "\<forall>sn f. archived d' sn f =
        (if bin_path s = Some sn \<and> live (disk s) f \<noteq> None
            \<and> fate_of (meta_file_content s) (story_dictonary s) (bin_path s) f = Archive
         then live (disk s) f else archived (disk s) sn f)" by blast
  from d'(2) [rule_format, of name] d'(3) [rule_format, of _ name] del d'(1)
  show ?thesis by simp
qed

text \<open>
  The theorem in the middle of the second cycle of the sample: \<^verbatim>\<open>error.html\<close> is in
  the content directory and is no story of the previous metadata.
\<close>

theorem clean_local_storage_deletes_untracked_witness:
  "meta_ok (meta_file_content reconciling)
   \<and> dict_ok (story_dictonary reconciling)
   \<and> bin_ok reconciling
   \<and> live (disk reconciling) ''error.html'' = Some ''<h1>Not found</h1>''
   \<and> map_of (story_set (meta_file_content reconciling)) ''error.html'' = None
   \<and> fst (clean_local_storage reconciling) = Return ()
   \<and> live (disk (snd (clean_local_storage reconciling))) ''error.html'' = None
   \<and> archived (disk (snd (clean_local_storage reconciling))) ''sha256-of-v1'' ''error.html'' = None"
proof -
  have a: "meta_ok (meta_file_content reconciling)" "dict_ok (story_dictonary reconciling)"
    by (simp_all add: reconciling_def before_second_def sample_ok)
  have b: "bin_ok reconciling"
    by (simp add: reconciling_def bin_ok_def has_snapshot_def)
  have c: "live (disk reconciling) ''error.html'' = Some ''<h1>Not found</h1>''"
    by (simp add: reconciling_def live_def after_v1_state)
  then have c': "live (disk reconciling) ''error.html'' \<noteq> None" by simp
  have d: "map_of (story_set (meta_file_content reconciling)) ''error.html'' = None"
    by (simp add: reconciling_def before_second_def sample_tracked)
  have e: "archived (disk reconciling) ''sha256-of-v1'' ''error.html'' = None"
    by (simp add: reconciling_def archived_def)
  from clean_local_storage_deletes_untracked [OF a b c' d] a b c d e show ?thesis by simp
qed

text \<open>
  The loop of \<^verbatim>\<open>sync_stories\<close> writes every story, whatever its anchor: when the loop
  has run, each story's file has its content.
\<close>

lemma save_stories_writes_every_story:
  assumes "list_all story_ok sts" and "distinct (map anchor_of sts)"
      and "meta_object s = Some m" and "mo_stories m \<noteq> None"
      and "story \<in> set sts"
  shows "\<exists>sitemap_items. fst (save_stories e sts items s) = Return sitemap_items"
    and "live (disk (snd (save_stories e sts items s))) (anchor_of story) = Some (content_of story)"
proof -
  from save_stories_views [OF assms(1-4), of e items] obtain items' d' m' where r:
    "save_stories e sts items s = (Return items', s\<lparr>disk := d', meta_object := Some m'\<rparr>)"
    "\<forall>f. live d' f = (case written sts f of Some c \<Rightarrow> Some c | None \<Rightarrow> live (disk s) f)"
    by blast
  from r(1) show "\<exists>sitemap_items. fst (save_stories e sts items s) = Return sitemap_items" by simp
  from assms(5,2) have "written sts (anchor_of story) = Some (content_of story)"
    by (rule written_member)
  with r show "live (disk (snd (save_stories e sts items s))) (anchor_of story) = Some (content_of story)"
    by simp
qed







text \<open>
  C4. The failing run: the engine that stored the first version of the sample fetches
  the second, from which the story \<^verbatim>\<open>about\<close> is gone. The story is in the previous
  metadata and not in the new document, the cycle is a changed one with the snapshot of
  the first version active (the old landing page is moved into it), yet the file
  \<^verbatim>\<open>about\<close> stays in the content directory and the snapshot has no file of that name.
  The mapping still has the entry validation stored in the first cycle, and its hash is
  the recorded one (see C10).
\<close>

theorem removed_story_stays_live:
  "map_of (story_set meta_v1) ''about'' \<noteq> None
   \<and> ''about'' \<notin> set (map anchor_of (stories_of doc_v2))
   \<and> read_meta sample_env (disk after_v1) = Return meta_v1
   \<and> fst (cycle sample_env (remote ''v2'' now) after_v1) = Return False
   \<and> live (disk (snd (cycle sample_env (remote ''v2'' now) after_v1))) ''about'' = Some ''<p>About us</p>''
   \<and> archived (disk (snd (cycle sample_env (remote ''v2'' now) after_v1))) ''sha256-of-v1'' ''about'' = None
   \<and> archived (disk (snd (cycle sample_env (remote ''v2'' now) after_v1))) ''sha256-of-v1'' ''index''
       = Some ''<h1>Home</h1>''"
  by (simp add: after_v1_def sample_defs engine_defs live_def archived_def story_set_def field_def
        stories_of_def anchor_of_def str_field_def)

text \<open>
  With no entry for the anchor in the mapping, as in the first cycle of a process, the
  file of a removed story is moved into the snapshot.
\<close>

lemma removed_story_archived_if_unseen:
  assumes fetched: "net w = Response r" "code r = 200" "json_load e r = Return doc"
      and doc: "doc_ok doc"
      and state: "meta_ok (meta_file_content s)" "dict_ok (story_dictonary s)"
      and prev: "field ''checksum'' (meta_file_content s) = Some (JStr c0)" "c0 \<noteq> checksum_of e doc"
      and unseen: "dict_find (JStr a) (story_dictonary s) = None"
      and tracked: "map_of (story_set (meta_file_content s)) a = Some entry"
      and removed: "a \<notin> set (map anchor_of (stories_of doc))"
      and old: "live (disk s) a = Some old_content"
      and names: "a \<noteq> ''sitemap.xml''" "a \<noteq> ''error.html''" "a \<noteq> ''meta.json''"
  shows "fst (sync e w s) = Return False
         \<and> live (disk (snd (sync e w s))) a = None
         \<and> archived (disk (snd (sync e w s))) c0 a = Some old_content"
proof -
  let ?dict = "store_all (stories_of doc) (story_dictonary s)"
  from removed have w: "written (stories_of doc) a = None" by (rule written_absent)
  from removed unseen have f: "dict_find (JStr a) ?dict = None"
    by (simp add: store_all_absent)
  from prev(1) have bp: "active_snapshot (meta_file_content s) (bin_path s) = Some c0"
    by (simp add: active_snapshot_def str_field_def)
  from tracked f bp
  have fate: "fate_of (meta_file_content s) ?dict (active_snapshot (meta_file_content s) (bin_path s)) a
                = Archive"
    by (simp add: fate_of_def)
  from prev have ch: "field ''checksum'' (meta_file_content s) \<noteq> Some (JStr (checksum_of e doc))"
    and no: "field ''checksum'' (meta_file_content s) = None \<longrightarrow> bin_ok s" by simp_all
  note v = sync_changed_views [OF fetched doc state no ch]
  have "live (disk (snd (sync e w s))) a = None"
    using v(3) [OF names(1,2)] w fate by simp
  moreover have "archived (disk (snd (sync e w s))) c0 a = Some old_content"
    using v(4) [OF names(3), of c0] fate bp old by simp
  ultimately show ?thesis using v(1) by simp
qed

text \<open>
  C10. The mapping is never cleared (\<open>story_dictonary_never_shrinks\<close> above: a key
  stays a key through every cycle). So in a later cycle of the same engine, for an
  anchor the mapping holds from an earlier cycle and the remote document no longer has:
  when the hash of the stale entry equals the hash the previous metadata records, a
  changed cycle with an active snapshot \<open>c0\<close> keeps the entry in the mapping, leaves
  the file in the content directory and moves nothing of that name into the snapshot.
\<close>

theorem stale_story_left_in_place:
  assumes fetched: "net w = Response r" "code r = 200" "json_load e r = Return doc"
      and doc: "doc_ok doc"
      and state: "meta_ok (meta_file_content s)" "dict_ok (story_dictonary s)"
      and prev: "field ''checksum'' (meta_file_content s) = Some (JStr c0)" "c0 \<noteq> checksum_of e doc"
      and stale: "dict_find (JStr a) (story_dictonary s) = Some stale" "field ''hash'' stale = Some h"
      and tracked: "map_of (story_set (meta_file_content s)) a = Some entry"
                   "field ''hash'' entry = Some h'" "py_eq h h'"
      and removed: "a \<notin> set (map anchor_of (stories_of doc))"
      and old: "live (disk s) a = Some old_content"
      and names: "a \<noteq> ''sitemap.xml''" "a \<noteq> ''error.html''" "a \<noteq> ''meta.json''"
  shows "fst (sync e w s) = Return False
         \<and> dict_find (JStr a) (story_dictonary (snd (sync e w s))) = Some stale
         \<and> live (disk (snd (sync e w s))) a = Some old_content
         \<and> archived (disk (snd (sync e w s))) c0 a = archived (disk s) c0 a"
proof -
  let ?dict = "store_all (stories_of doc) (story_dictonary s)"
  from removed have w: "written (stories_of doc) a = None" by (rule written_absent)
  from removed stale(1) have f: "dict_find (JStr a) ?dict = Some stale"
    by (simp add: store_all_absent)
  from prev(1) have bp: "active_snapshot (meta_file_content s) (bin_path s) = Some c0"
    by (simp add: active_snapshot_def str_field_def)
  from tracked stale(2) f bp
  have fate: "fate_of (meta_file_content s) ?dict (active_snapshot (meta_file_content s) (bin_path s)) a
                = Keep"
    by (simp add: fate_of_def same_hash_def)
  from prev have ch: "field ''checksum'' (meta_file_content s) \<noteq> Some (JStr (checksum_of e doc))"
    and no: "field ''checksum'' (meta_file_content s) = None \<longrightarrow> bin_ok s" by simp_all
  note v = sync_changed_views [OF fetched doc state no ch]
  have "live (disk (snd (sync e w s))) a = Some old_content"
    using v(3) [OF names(1,2)] w fate old by simp
  moreover have "archived (disk (snd (sync e w s))) c0 a = archived (disk s) c0 a"
    using v(4) [OF names(3), of c0] fate by simp
  ultimately show ?thesis using v(1,2) f by simp
qed

text \<open>
  The theorem at two consecutive cycles of the sample: the first stores the first
  version, the second fetches the second version, without \<^verbatim>\<open>about\<close>.
\<close>

theorem stale_story_left_in_place_witness:
  "cycle sample_env (remote ''v2'' ''later'') after_v1
     = sync sample_env (remote ''v2'' ''later'') before_second
   \<and> dict_find (JStr ''about'') (story_dictonary after_v1) = Some story_about_v1
   \<and> ''about'' \<notin> set (map anchor_of (stories_of doc_v2))
   \<and> fst (sync sample_env (remote ''v2'' ''later'') before_second) = Return False
   \<and> dict_find (JStr ''about'')
        (story_dictonary (snd (sync sample_env (remote ''v2'' ''later'') before_second)))
       = Some story_about_v1
   \<and> live (disk (snd (sync sample_env (remote ''v2'' ''later'') before_second))) ''about''
       = Some ''<p>About us</p>''
   \<and> archived (disk (snd (sync sample_env (remote ''v2'' ''later'') before_second)))
        ''sha256-of-v1'' ''about'' = None"
proof -
  have c: "cycle sample_env (remote ''v2'' ''later'') after_v1
             = sync sample_env (remote ''v2'' ''later'') before_second"
    by (rule before_second_cycle)
  have st: "dict_find (JStr ''about'') (story_dictonary before_second) = Some story_about_v1"
    "field ''hash'' story_about_v1 = Some (JStr ''k'')"
    by (simp_all add: before_second_def after_v1_state field_def story_about_v1_def)
  have r: "''about'' \<notin> set (map anchor_of (stories_of doc_v2))"
    by (simp add: stories_of_def field_def doc_v2_def site_def anchor_of_def str_field_def
          story_index_v2_def)
  have s: "meta_ok (meta_file_content before_second)" "dict_ok (story_dictonary before_second)"
    by (simp_all add: before_second_def sample_ok)
  have p: "field ''checksum'' (meta_file_content before_second) = Some (JStr ''sha256-of-v1'')"
    "''sha256-of-v1'' \<noteq> checksum_of sample_env doc_v2"
    by (simp_all add: before_second_def sample_checksums)
  have t: "map_of (story_set (meta_file_content before_second)) ''about''
             = Some (JObj [(''anchor'', JStr ''about''), (''hash'', JStr ''k''),
                           (''canonical_url'', JStr ''https://example.org/about''),
                           (''updated_at'', JStr ''2025-01-01T11:00:00.000000Z'')])"
    "field ''hash'' (JObj [(''anchor'', JStr ''about''), (''hash'', JStr ''k''),
                           (''canonical_url'', JStr ''https://example.org/about''),
                           (''updated_at'', JStr ''2025-01-01T11:00:00.000000Z'')]) = Some (JStr ''k'')"
    by (simp_all add: before_second_def sample_tracked field_def)
  have eq: "py_eq (JStr ''k'') (JStr ''k'')" by simp
  have o: "live (disk before_second) ''about'' = Some ''<p>About us</p>''"
    "archived (disk before_second) ''sha256-of-v1'' ''about'' = None"
    by (simp_all add: before_second_def live_def archived_def after_v1_state)
  have n: "''about'' \<noteq> ''sitemap.xml''" "''about'' \<noteq> ''error.html''" "''about'' \<noteq> ''meta.json''"
    by simp_all
  have f: "code \<lparr>code = 200, body = Return ''v2''\<rparr> = 200"
    "json_load sample_env \<lparr>code = 200, body = Return ''v2''\<rparr> = Return doc_v2"
    by (simp_all add: sample_fetch)
  from stale_story_left_in_place
         [OF sample_fetch(1) f sample_ok(1) s p st t eq r o(1) n] c st(1) r o(2)
  show ?thesis by (simp add: before_second_def)
qed

end
